theory Spec2Isabelle
  imports Main "HOL-Library.Word" "HOL-Library.AList"
begin

unbundle bit_operations_syntax

section \<open>Python values\<close>

text \<open>
  Bytes objects are lists of 8-bit words. A Python \<open>str\<close> is the list of its code points.
  Python integers that are never negative in this program (lengths, offsets, block and inode
  numbers, values returned by \<open>struct.unpack\<close>) are natural numbers; \<open>None\<close> is the
  \<open>None\<close> of an option type. Every exception the code can raise is a value of \<open>pyerr\<close>.
\<close>

type_synonym byte = "8 word"
type_synonym bytes = "byte list"
type_synonym pystr = "nat list"

datatype pyerr = TypeError | StructError | IndexError | AttributeError | ValueError
  | UnicodeEncodeError

definition str :: "string \<Rightarrow> pystr" where
  "str s = map of_char s"

definition BLOCK_SIZE :: nat where "BLOCK_SIZE = 4096"
definition MAGIC_NUMBER :: nat where "MAGIC_NUMBER = 0xDEADBEEF"
definition INODE_SIZE :: nat where "INODE_SIZE = 128"
definition DIRECT_BLOCKS :: nat where "DIRECT_BLOCKS = 12"

text \<open>\<open>xs[a:b]\<close> and the slice assignment \<open>buf[a:b] = src\<close> on a bytearray, for
  \<open>0 \<le> a\<close> and \<open>0 \<le> b\<close>; Python clamps both bounds to the length.\<close>

definition slice :: "nat \<Rightarrow> nat \<Rightarrow> 'a list \<Rightarrow> 'a list" where
  "slice a b xs = take (b - a) (drop a xs)"

definition set_slice :: "nat \<Rightarrow> nat \<Rightarrow> 'a list \<Rightarrow> 'a list \<Rightarrow> 'a list" where
  "set_slice a b src buf = take a buf @ src @ drop (max a b) buf"

subsection \<open>struct: little-endian packing\<close>

fun le_bytes :: "nat \<Rightarrow> nat \<Rightarrow> bytes" where
  "le_bytes 0 v = []"
| "le_bytes (Suc k) v = of_nat (v mod 256) # le_bytes k (v div 256)"

fun le_nat :: "bytes \<Rightarrow> nat" where
  "le_nat [] = 0"
| "le_nat (b # bs) = unat b + 256 * le_nat bs"

text \<open>\<open>struct.pack('<I', v)\<close> and \<open>struct.pack('<Q', v)\<close>: \<open>struct.error\<close> when the argument
  is \<open>None\<close> or out of range.\<close>

definition pack_I :: "nat option \<Rightarrow> pyerr + bytes" where
  "pack_I v = (case v of None \<Rightarrow> Inl StructError
     | Some n \<Rightarrow> if n < 2 ^ 32 then Inr (le_bytes 4 n) else Inl StructError)"

definition pack_Q :: "nat \<Rightarrow> pyerr + bytes" where
  "pack_Q n = (if n < 2 ^ 64 then Inr (le_bytes 8 n) else Inl StructError)"

text \<open>\<open>struct.unpack('<I', d)[0]\<close>: \<open>struct.error\<close> unless \<open>d\<close> has exactly four bytes.\<close>

definition unpack_I :: "bytes \<Rightarrow> pyerr + nat" where
  "unpack_I d = (if length d = 4 then Inr (le_nat d) else Inl StructError)"

definition unpack_Q :: "bytes \<Rightarrow> pyerr + nat" where
  "unpack_Q d = (if length d = 8 then Inr (le_nat d) else Inl StructError)"

text \<open>\<open>struct.pack_into(fmt, buf, off, v)\<close>: the buffer keeps its length.\<close>

definition pack_into_I :: "bytes \<Rightarrow> nat \<Rightarrow> nat option \<Rightarrow> pyerr + bytes" where
  "pack_into_I buf off v = (case pack_I v of Inl e \<Rightarrow> Inl e
     | Inr bs \<Rightarrow> if off + 4 \<le> length buf then Inr (set_slice off (off + 4) bs buf)
                else Inl StructError)"

definition pack_into_Q :: "bytes \<Rightarrow> nat \<Rightarrow> nat \<Rightarrow> pyerr + bytes" where
  "pack_into_Q buf off v = (case pack_Q v of Inl e \<Rightarrow> Inl e
     | Inr bs \<Rightarrow> if off + 8 \<le> length buf then Inr (set_slice off (off + 8) bs buf)
                else Inl StructError)"

section \<open>Superblock\<close>

record superblock =
  magic :: nat
  block_size :: nat
  sb_total_blocks :: nat
  inode_count :: nat
  sb_free_blocks :: int
  root_inode :: nat

text \<open>\<open>Superblock.__init__\<close>: \<open>free_blocks = total_blocks - 10\<close> is negative for fewer than
  ten blocks.\<close>

definition Superblock :: "nat \<Rightarrow> nat \<Rightarrow> superblock" where
  "Superblock tb ic = \<lparr>magic = MAGIC_NUMBER, block_size = BLOCK_SIZE,
     sb_total_blocks = tb, inode_count = ic, sb_free_blocks = int tb - 10,
     root_inode = 1\<rparr>"

definition Superblock_from_bytes :: "bytes \<Rightarrow> pyerr + superblock" where
  "Superblock_from_bytes data =
    (case unpack_I (slice 0 4 data) of Inl e \<Rightarrow> Inl e | Inr mg \<Rightarrow>
     case unpack_I (slice 4 8 data) of Inl e \<Rightarrow> Inl e | Inr bsz \<Rightarrow>
     case unpack_I (slice 8 12 data) of Inl e \<Rightarrow> Inl e | Inr tb \<Rightarrow>
     case unpack_I (slice 12 16 data) of Inl e \<Rightarrow> Inl e | Inr ic \<Rightarrow>
     case unpack_I (slice 16 20 data) of Inl e \<Rightarrow> Inl e | Inr fb \<Rightarrow>
     case unpack_I (slice 20 24 data) of Inl e \<Rightarrow> Inl e | Inr ri \<Rightarrow>
       Inr ((Superblock tb ic)
              \<lparr>block_size := bsz, sb_free_blocks := int fb, root_inode := ri\<rparr>))"

definition Superblock_to_bytes :: "superblock \<Rightarrow> pyerr + bytes" where
  "Superblock_to_bytes sb =
    (case pack_into_I (replicate BLOCK_SIZE 0) 0 (Some (magic sb)) of Inl e \<Rightarrow> Inl e | Inr d0 \<Rightarrow>
     case pack_into_I d0 4 (Some (block_size sb)) of Inl e \<Rightarrow> Inl e | Inr d1 \<Rightarrow>
     case pack_into_I d1 8 (Some (sb_total_blocks sb)) of Inl e \<Rightarrow> Inl e | Inr d2 \<Rightarrow>
     case pack_into_I d2 12 (Some (inode_count sb)) of Inl e \<Rightarrow> Inl e | Inr d3 \<Rightarrow>
     case (if sb_free_blocks sb < 0 then Inl StructError
           else pack_into_I d3 16 (Some (nat (sb_free_blocks sb)))) of Inl e \<Rightarrow> Inl e | Inr d4 \<Rightarrow>
     pack_into_I d4 20 (Some (root_inode sb)))"

section \<open>Block device\<close>

text \<open>
  The host file behind a device is its length in bytes together with its content, held
  block by block: \<open>dev_blocks d n\<close> is the content of bytes \<open>n * 4096\<close> to \<open>n * 4096 + 4095\<close>,
  always 4096 bytes long and zero where the file was never written (\<open>create\<close> zero-fills the
  file, and a write past the end leaves a gap that reads as zeros). \<open>file.read\<close> stops at
  the end of the file, so a block that crosses it is read short or empty. A block number
  of \<open>None\<close> raises \<open>TypeError\<close> in \<open>block_num * BLOCK_SIZE\<close>.
\<close>

record block_device =
  dev_block_count :: nat
  dev_size :: nat
  dev_blocks :: "nat \<Rightarrow> bytes"

definition BlockDevice_create :: "nat \<Rightarrow> block_device" where
  "BlockDevice_create size_mb =
     (let total_size = size_mb * 1024 * 1024
      in \<lparr>dev_block_count = total_size div BLOCK_SIZE, dev_size = total_size,
          dev_blocks = (\<lambda>n. replicate BLOCK_SIZE 0)\<rparr>)"

definition BlockDevice_open :: "block_device \<Rightarrow> block_device" where
  "BlockDevice_open f = f\<lparr>dev_block_count := dev_size f div BLOCK_SIZE\<rparr>"

definition read_block :: "block_device \<Rightarrow> nat option \<Rightarrow> pyerr + bytes" where
  "read_block d block_num = (case block_num of None \<Rightarrow> Inl TypeError
     | Some n \<Rightarrow> Inr (take (dev_size d - n * BLOCK_SIZE) (dev_blocks d n)))"

text \<open>\<open>file.write(data)\<close> at offset \<open>n * 4096\<close>: the bytes go into block \<open>n\<close> and, were the
  data longer than a block, into the blocks after it.\<close>

fun store :: "nat \<Rightarrow> nat \<Rightarrow> bytes \<Rightarrow> (nat \<Rightarrow> bytes) \<Rightarrow> (nat \<Rightarrow> bytes)" where
  "store 0 n data blk = blk"
| "store (Suc k) n data blk =
     store k (Suc n) (drop BLOCK_SIZE data)
       (blk(n := take BLOCK_SIZE data @ drop (length data) (blk n)))"

definition write_block :: "block_device \<Rightarrow> nat option \<Rightarrow> bytes \<Rightarrow> pyerr + block_device" where
  "write_block d block_num data = (case block_num of None \<Rightarrow> Inl TypeError
     | Some n \<Rightarrow> Inr (d\<lparr>dev_size := max (dev_size d) (n * BLOCK_SIZE + length data),
          dev_blocks := store ((length data + BLOCK_SIZE - 1) div BLOCK_SIZE) n data
             (dev_blocks d)\<rparr>))"

section \<open>Block allocator\<close>

record allocator =
  total_blocks :: nat
  bitmap :: bytes

definition is_allocated :: "allocator \<Rightarrow> nat \<Rightarrow> bool" where
  "is_allocated a block_num =
     (let byte_idx = block_num div 8; bit_idx = block_num mod 8
      in if byte_idx \<ge> length (bitmap a) then False
         else (bitmap a ! byte_idx) AND (push_bit bit_idx 1) \<noteq> 0)"

definition set_allocated :: "allocator \<Rightarrow> nat \<Rightarrow> bool \<Rightarrow> allocator" where
  "set_allocated a block_num allocated =
     (let byte_idx = block_num div 8; bit_idx = block_num mod 8
      in if byte_idx \<ge> length (bitmap a) then a
         else if allocated
           then a\<lparr>bitmap := (bitmap a)[byte_idx := (bitmap a ! byte_idx) OR (push_bit bit_idx 1)]\<rparr>
           else a\<lparr>bitmap := (bitmap a)[byte_idx := (bitmap a ! byte_idx) AND NOT (push_bit bit_idx 1)]\<rparr>)"

definition BlockAllocator :: "nat \<Rightarrow> allocator" where
  "BlockAllocator tb =
     fold (\<lambda>i a. set_allocated a i True) [0..<min 10 tb]
       \<lparr>total_blocks = tb, bitmap = replicate ((tb + 7) div 8) 0\<rparr>"

definition BlockAllocator_from_bytes :: "bytes \<Rightarrow> nat \<Rightarrow> allocator" where
  "BlockAllocator_from_bytes data tb = \<lparr>total_blocks = tb, bitmap = data\<rparr>"

text \<open>\<open>allocate_block\<close> returns the new allocator and the lowest free block, or \<open>None\<close>.\<close>

definition allocate_block :: "allocator \<Rightarrow> allocator \<times> nat option" where
  "allocate_block a =
     (case find (\<lambda>i. \<not> is_allocated a i) [0..<total_blocks a] of
        None \<Rightarrow> (a, None)
      | Some i \<Rightarrow> (set_allocated a i True, Some i))"

text \<open>\<open>free_block(None)\<close> raises \<open>TypeError\<close> in \<open>block_num < self.total_blocks\<close>.\<close>

definition free_block :: "allocator \<Rightarrow> nat option \<Rightarrow> pyerr + allocator" where
  "free_block a block_num = (case block_num of None \<Rightarrow> Inl TypeError
     | Some n \<Rightarrow> Inr (if n < total_blocks a then set_allocated a n False else a))"

definition allocator_to_bytes :: "allocator \<Rightarrow> bytes" where
  "allocator_to_bytes a = bitmap a"

definition free_blocks :: "allocator \<Rightarrow> nat" where
  "free_blocks a = length (filter (\<lambda>i. \<not> is_allocated a i) [0..<total_blocks a])"

section \<open>Inodes\<close>

datatype FileType = REGULAR | DIRECTORY

definition int_of_FileType :: "FileType \<Rightarrow> byte" where
  "int_of_FileType t = (case t of REGULAR \<Rightarrow> 1 | DIRECTORY \<Rightarrow> 2)"

text \<open>\<open>direct_blocks\<close> always has \<open>DIRECT_BLOCKS\<close> slots (the code only assigns items); a slot
  holds \<open>None\<close> after \<open>allocate_block\<close> found no free block. The clock is an argument
  \<open>now\<close> of every operation that reads it.\<close>

record inode =
  file_type :: FileType
  size :: nat
  block_count :: nat
  direct_blocks :: "nat option list"
  indirect_block :: nat
  double_indirect_block :: nat
  created :: nat
  modified :: nat
  accessed :: nat

definition Inode :: "nat \<Rightarrow> FileType \<Rightarrow> inode" where
  "Inode now t = \<lparr>file_type = t, size = 0, block_count = 0,
     direct_blocks = replicate DIRECT_BLOCKS (Some 0), indirect_block = 0,
     double_indirect_block = 0, created = now, modified = now, accessed = now\<rparr>"

text \<open>The loop of \<open>to_bytes\<close> over the direct blocks.\<close>

fun pack_direct :: "nat option list \<Rightarrow> nat list \<Rightarrow> bytes \<Rightarrow> pyerr + bytes" where
  "pack_direct db [] data = Inr data"
| "pack_direct db (i # is) data =
     (case pack_into_I data (12 + i * 4) (db ! i) of Inl e \<Rightarrow> Inl e
      | Inr data' \<Rightarrow> pack_direct db is data')"

definition Inode_to_bytes :: "inode \<Rightarrow> pyerr + bytes" where
  "Inode_to_bytes ino =
    (let d = (replicate INODE_SIZE 0)[0 := int_of_FileType (file_type ino)] in
     case pack_into_I d 4 (Some (size ino)) of Inl e \<Rightarrow> Inl e | Inr d1 \<Rightarrow>
     case pack_into_I d1 8 (Some (block_count ino)) of Inl e \<Rightarrow> Inl e | Inr d2 \<Rightarrow>
     case pack_direct (direct_blocks ino) [0..<DIRECT_BLOCKS] d2 of Inl e \<Rightarrow> Inl e | Inr d3 \<Rightarrow>
     case pack_into_I d3 60 (Some (indirect_block ino)) of Inl e \<Rightarrow> Inl e | Inr d4 \<Rightarrow>
     case pack_into_I d4 64 (Some (double_indirect_block ino)) of Inl e \<Rightarrow> Inl e | Inr d5 \<Rightarrow>
     case pack_into_Q d5 68 (created ino) of Inl e \<Rightarrow> Inl e | Inr d6 \<Rightarrow>
     case pack_into_Q d6 76 (modified ino) of Inl e \<Rightarrow> Inl e | Inr d7 \<Rightarrow>
     pack_into_Q d7 84 (accessed ino))"

fun unpack_direct :: "bytes \<Rightarrow> nat list \<Rightarrow> pyerr + nat option list" where
  "unpack_direct data [] = Inr []"
| "unpack_direct data (i # is) =
     (case unpack_I (slice (12 + i * 4) (12 + i * 4 + 4) data) of Inl e \<Rightarrow> Inl e
      | Inr b \<Rightarrow> (case unpack_direct data is of Inl e \<Rightarrow> Inl e | Inr bs \<Rightarrow> Inr (Some b # bs)))"

text \<open>\<open>Inode.from_bytes\<close>: the timestamps set by the constructor are all overwritten, so the
  clock does not show in the result. \<open>data[0]\<close> raises \<open>IndexError\<close> on empty data.\<close>

definition Inode_from_bytes :: "bytes \<Rightarrow> pyerr + inode" where
  "Inode_from_bytes data =
    (if data = [] then Inl IndexError else
     let t = (if data ! 0 = 1 then REGULAR else if data ! 0 = 2 then DIRECTORY else REGULAR) in
     case unpack_I (slice 4 8 data) of Inl e \<Rightarrow> Inl e | Inr sz \<Rightarrow>
     case unpack_I (slice 8 12 data) of Inl e \<Rightarrow> Inl e | Inr bc \<Rightarrow>
     case unpack_direct data [0..<DIRECT_BLOCKS] of Inl e \<Rightarrow> Inl e | Inr db \<Rightarrow>
     case unpack_I (slice 60 64 data) of Inl e \<Rightarrow> Inl e | Inr ib \<Rightarrow>
     case unpack_I (slice 64 68 data) of Inl e \<Rightarrow> Inl e | Inr dib \<Rightarrow>
     case unpack_Q (slice 68 76 data) of Inl e \<Rightarrow> Inl e | Inr cr \<Rightarrow>
     case unpack_Q (slice 76 84 data) of Inl e \<Rightarrow> Inl e | Inr mo \<Rightarrow>
     case unpack_Q (slice 84 92 data) of Inl e \<Rightarrow> Inl e | Inr ac \<Rightarrow>
       Inr \<lparr>file_type = t, size = sz, block_count = bc, direct_blocks = db,
            indirect_block = ib, double_indirect_block = dib, created = cr, modified = mo,
            accessed = ac\<rparr>)"

section \<open>Strings\<close>

text \<open>\<open>s.rstrip(c)\<close>, \<open>s.strip(c)\<close>, \<open>s.split(c)\<close> and \<open>s.rfind(c)\<close> for a one-character
  \<open>c\<close>; \<open>rfind\<close> returns \<open>None\<close> where Python returns \<open>-1\<close>.\<close>

definition rstrip :: "'a \<Rightarrow> 'a list \<Rightarrow> 'a list" where
  "rstrip c s = rev (dropWhile (\<lambda>x. x = c) (rev s))"

definition strip :: "'a \<Rightarrow> 'a list \<Rightarrow> 'a list" where
  "strip c s = dropWhile (\<lambda>x. x = c) (rstrip c s)"

fun split :: "'a \<Rightarrow> 'a list \<Rightarrow> 'a list list" where
  "split c [] = [[]]"
| "split c (x # xs) =
     (if x = c then [] # split c xs
      else (case split c xs of [] \<Rightarrow> [[x]] | w # ws \<Rightarrow> (x # w) # ws))"

fun rfind :: "'a \<Rightarrow> 'a list \<Rightarrow> nat option" where
  "rfind c [] = None"
| "rfind c (x # xs) =
     (case rfind c xs of Some i \<Rightarrow> Some (Suc i)
      | None \<Rightarrow> if x = c then Some 0 else None)"

definition SLASH :: nat where "SLASH = 47"

subsection \<open>The UTF-8 codec\<close>

text \<open>
  \<open>name.encode('utf-8')\<close> raises \<open>UnicodeEncodeError\<close> on a surrogate code point.
  \<open>bytes.decode('utf-8', errors='replace')\<close> never raises: every maximal ill-formed
  sequence, and a sequence cut off by the end of the data, becomes one U+FFFD.
\<close>

definition utf8_encode_cp :: "nat \<Rightarrow> bytes option" where
  "utf8_encode_cp c =
     (if c < 0x80 then Some [of_nat c]
      else if c < 0x800 then Some [of_nat (0xC0 + c div 64), of_nat (0x80 + c mod 64)]
      else if 0xD800 \<le> c \<and> c < 0xE000 then None
      else if c < 0x10000 then
        Some [of_nat (0xE0 + c div 4096), of_nat (0x80 + c div 64 mod 64),
              of_nat (0x80 + c mod 64)]
      else if c < 0x110000 then
        Some [of_nat (0xF0 + c div 262144), of_nat (0x80 + c div 4096 mod 64),
              of_nat (0x80 + c div 64 mod 64), of_nat (0x80 + c mod 64)]
      else None)"

fun utf8_encode :: "pystr \<Rightarrow> pyerr + bytes" where
  "utf8_encode [] = Inr []"
| "utf8_encode (c # cs) =
     (case utf8_encode_cp c of None \<Rightarrow> Inl UnicodeEncodeError
      | Some bs \<Rightarrow> (case utf8_encode cs of Inl e \<Rightarrow> Inl e | Inr rest \<Rightarrow> Inr (bs @ rest)))"

definition is_cont :: "byte \<Rightarrow> bool" where
  "is_cont b = (0x80 \<le> b \<and> b \<le> 0xBF)"

definition cont_bits :: "byte \<Rightarrow> nat" where
  "cont_bits b = unat b mod 64"

definition REPLACEMENT :: nat where "REPLACEMENT = 0xFFFD"

fun utf8_decode :: "bytes \<Rightarrow> pystr" where
  "utf8_decode [] = []"
| "utf8_decode (b0 # bs) =
     (if b0 < 0x80 then unat b0 # utf8_decode bs
      else if b0 < 0xC2 then REPLACEMENT # utf8_decode bs
      else if b0 < 0xE0 then
        (case bs of [] \<Rightarrow> [REPLACEMENT]
         | b1 # bs1 \<Rightarrow>
            if is_cont b1 then ((unat b0 mod 32) * 64 + cont_bits b1) # utf8_decode bs1
            else REPLACEMENT # utf8_decode bs)
      else if b0 < 0xF0 then
        (case bs of [] \<Rightarrow> [REPLACEMENT]
         | b1 # bs1 \<Rightarrow>
            if \<not> is_cont b1 \<or> (if b1 < 0xA0 then b0 = 0xE0 else b0 = 0xED)
            then REPLACEMENT # utf8_decode bs
            else (case bs1 of [] \<Rightarrow> [REPLACEMENT]
              | b2 # bs2 \<Rightarrow>
                 if is_cont b2
                 then ((unat b0 mod 16) * 4096 + cont_bits b1 * 64 + cont_bits b2)
                        # utf8_decode bs2
                 else REPLACEMENT # utf8_decode bs1))
      else if b0 < 0xF5 then
        (case bs of [] \<Rightarrow> [REPLACEMENT]
         | b1 # bs1 \<Rightarrow>
            if \<not> is_cont b1 \<or> (if b1 < 0x90 then b0 = 0xF0 else b0 = 0xF4)
            then REPLACEMENT # utf8_decode bs
            else (case bs1 of [] \<Rightarrow> [REPLACEMENT]
              | b2 # bs2 \<Rightarrow>
                 if \<not> is_cont b2 then REPLACEMENT # utf8_decode bs1
                 else (case bs2 of [] \<Rightarrow> [REPLACEMENT]
                   | b3 # bs3 \<Rightarrow>
                      if is_cont b3
                      then ((unat b0 mod 8) * 262144 + cont_bits b1 * 4096
                              + cont_bits b2 * 64 + cont_bits b3) # utf8_decode bs3
                      else REPLACEMENT # utf8_decode bs2)))
      else REPLACEMENT # utf8_decode bs)"

section \<open>Directory entries\<close>

record dir_entry =
  inode_num :: nat
  name :: pystr

text \<open>\<open>DirEntry.from_bytes\<close> returns the entry and the number of bytes it takes.\<close>

definition DirEntry_from_bytes :: "bytes \<Rightarrow> pyerr + dir_entry \<times> nat" where
  "DirEntry_from_bytes data =
    (case unpack_I (slice 0 4 data) of Inl e \<Rightarrow> Inl e | Inr num \<Rightarrow>
     case unpack_I (slice 4 8 data) of Inl e \<Rightarrow> Inl e | Inr name_len \<Rightarrow>
       Inr (\<lparr>inode_num = num, name = utf8_decode (slice 8 (8 + name_len) data)\<rparr>,
            8 + name_len))"

text \<open>\<open>DirEntry(inode_num, name).to_bytes()\<close>; a \<open>name\<close> of \<open>None\<close> has no \<open>encode\<close>.\<close>

definition DirEntry_to_bytes :: "nat \<Rightarrow> pystr option \<Rightarrow> pyerr + bytes" where
  "DirEntry_to_bytes num nm =
    (case nm of None \<Rightarrow> Inl AttributeError | Some s \<Rightarrow>
     case utf8_encode s of Inl e \<Rightarrow> Inl e | Inr name_bytes \<Rightarrow>
     case pack_I (Some num) of Inl e \<Rightarrow> Inl e | Inr b1 \<Rightarrow>
     case pack_I (Some (length name_bytes)) of Inl e \<Rightarrow> Inl e | Inr b2 \<Rightarrow>
       Inr (b1 @ b2 @ name_bytes))"

section \<open>The filesystem\<close>

text \<open>
  The inode table is a Python \<open>dict\<close>: an association list in insertion order, which is
  the order \<open>_write_inode_table\<close> walks it in. An operation that mutates the filesystem
  returns its outcome (\<open>Inl\<close> the exception that escaped) together with the filesystem as
  the call left it, so that what was mutated before an exception stays mutated.
\<close>

record filesystem =
  device :: block_device
  allocator :: allocator
  superblock :: superblock
  inode_table :: "(nat \<times> inode) list"
  next_inode :: nat

text \<open>\<open>self.inode_table.get(k)\<close>, where \<open>k\<close> may be \<open>None\<close>.\<close>

definition table_get :: "(nat \<times> inode) list \<Rightarrow> nat option \<Rightarrow> inode option" where
  "table_get tbl k = (case k of None \<Rightarrow> None | Some n \<Rightarrow> map_of tbl n)"

subsection \<open>The inode table on disk\<close>

fun write_inode_loop ::
  "(nat \<times> inode) list \<Rightarrow> bytes \<Rightarrow> nat \<Rightarrow> block_device \<Rightarrow> (pyerr + bytes \<times> nat) \<times> block_device"
where
  "write_inode_loop [] block_data offset dev = (Inr (block_data, offset), dev)"
| "write_inode_loop ((num, ino) # rest) block_data offset dev =
    (case Inode_to_bytes ino of Inl e \<Rightarrow> (Inl e, dev) | Inr inode_data \<Rightarrow>
     case (if offset + 4 + INODE_SIZE > BLOCK_SIZE
           then (case write_block dev (Some 2) block_data of Inl e \<Rightarrow> Inl e
                 | Inr dev' \<Rightarrow> Inr (dev', replicate BLOCK_SIZE 0, 0))
           else Inr (dev, block_data, offset)) of
       Inl e \<Rightarrow> (Inl e, dev)
     | Inr (dev1, bd1, off1) \<Rightarrow>
        (case pack_into_I bd1 off1 (Some num) of Inl e \<Rightarrow> (Inl e, dev1)
         | Inr bd2 \<Rightarrow>
            write_inode_loop rest
              (set_slice (off1 + 4) (off1 + 4 + INODE_SIZE) inode_data bd2)
              (off1 + 4 + INODE_SIZE) dev1))"

definition write_inode_table ::
  "block_device \<Rightarrow> (nat \<times> inode) list \<Rightarrow> (pyerr + unit) \<times> block_device" where
  "write_inode_table dev tbl =
    (case write_inode_loop tbl (replicate BLOCK_SIZE 0) 0 dev of
       (Inl e, dev') \<Rightarrow> (Inl e, dev')
     | (Inr (block_data, offset), dev') \<Rightarrow>
         if offset > 0
         then (case write_block dev' (Some 2) block_data of Inl e \<Rightarrow> (Inl e, dev')
               | Inr dev'' \<Rightarrow> (Inr (), dev''))
         else (Inr (), dev'))"

function read_inode_loop ::
  "bytes \<Rightarrow> nat \<Rightarrow> (nat \<times> inode) list \<Rightarrow> pyerr + (nat \<times> inode) list" where
  "read_inode_loop block_data offset tbl =
    (if offset + 4 + INODE_SIZE \<le> BLOCK_SIZE then
       (case unpack_I (slice offset (offset + 4) block_data) of Inl e \<Rightarrow> Inl e
        | Inr num \<Rightarrow>
           if num = 0 then Inr tbl
           else (case Inode_from_bytes (slice (offset + 4) (offset + 4 + INODE_SIZE) block_data) of
                   Inl e \<Rightarrow> Inl e
                 | Inr ino \<Rightarrow>
                     read_inode_loop block_data (offset + 4 + INODE_SIZE)
                       (AList.update num ino tbl)))
     else Inr tbl)"
  by pat_completeness auto
termination
  by (relation "measure (\<lambda>(block_data, offset, tbl). BLOCK_SIZE - offset)")
     (auto simp: BLOCK_SIZE_def INODE_SIZE_def)

definition read_inode_table :: "block_device \<Rightarrow> pyerr + (nat \<times> inode) list" where
  "read_inode_table dev =
    (case read_block dev (Some 2) of Inl e \<Rightarrow> Inl e
     | Inr block_data \<Rightarrow> read_inode_loop block_data 0 [])"

subsection \<open>Create and open\<close>

text \<open>The bitmap written into a zeroed block, as \<open>create\<close> and \<open>_sync\<close> do.\<close>

definition bitmap_block :: "allocator \<Rightarrow> bytes" where
  "bitmap_block a =
    (let bitmap_data = allocator_to_bytes a;
         copy_len = min (length bitmap_data) BLOCK_SIZE
     in set_slice 0 copy_len (slice 0 copy_len bitmap_data) (replicate BLOCK_SIZE 0))"

text \<open>\<open>FileSystem.create(path, size_mb)\<close>. A negative size makes
  \<open>bytearray(bitmap_size)\<close> raise \<open>ValueError\<close>.\<close>

definition FileSystem_create :: "int \<Rightarrow> nat \<Rightarrow> pyerr + filesystem" where
  "FileSystem_create size_mb now =
    (if size_mb < 0 then Inl ValueError else
     let dev = BlockDevice_create (nat size_mb);
         tb = dev_block_count dev;
         a = BlockAllocator tb;
         sb = Superblock tb 1000 in
     case Superblock_to_bytes sb of Inl e \<Rightarrow> Inl e | Inr sb_bytes \<Rightarrow>
     case write_block dev (Some 0) sb_bytes of Inl e \<Rightarrow> Inl e | Inr dev1 \<Rightarrow>
     case write_block dev1 (Some 1) (bitmap_block a) of Inl e \<Rightarrow> Inl e | Inr dev2 \<Rightarrow>
     case allocate_block a of (a', root_block) \<Rightarrow>
     let root = (Inode now DIRECTORY)
           \<lparr>direct_blocks := (direct_blocks (Inode now DIRECTORY))[0 := root_block],
            block_count := 1\<rparr>;
         tbl = [(1, root)] in
     case write_block dev2 root_block (replicate BLOCK_SIZE 0) of Inl e \<Rightarrow> Inl e | Inr dev3 \<Rightarrow>
     case write_inode_table dev3 tbl of
       (Inl e, dev4) \<Rightarrow> Inl e
     | (Inr u, dev4) \<Rightarrow>
         Inr \<lparr>device = dev4, allocator = a', superblock = sb, inode_table = tbl,
              next_inode = 2\<rparr>)"

text \<open>\<open>FileSystem.open(path)\<close>, on the host file \<open>f\<close>.\<close>

definition FileSystem_open :: "block_device \<Rightarrow> pyerr + filesystem" where
  "FileSystem_open f =
    (let dev = BlockDevice_open f in
     case read_block dev (Some 0) of Inl e \<Rightarrow> Inl e | Inr superblock_data \<Rightarrow>
     case Superblock_from_bytes superblock_data of Inl e \<Rightarrow> Inl e | Inr sb \<Rightarrow>
     case read_block dev (Some 1) of Inl e \<Rightarrow> Inl e | Inr bitmap_data \<Rightarrow>
     let a = BlockAllocator_from_bytes bitmap_data (sb_total_blocks sb) in
     case read_inode_table dev of Inl e \<Rightarrow> Inl e | Inr tbl \<Rightarrow>
       Inr \<lparr>device = dev, allocator = a, superblock = sb, inode_table = tbl,
            next_inode = (if tbl = [] then 1 else fold max (map fst tbl) 0) + 1\<rparr>)"

text \<open>\<open>close\<close> releases the file handle; what stays is the host file.\<close>

definition close :: "filesystem \<Rightarrow> block_device" where
  "close fs = device fs"

definition reopen :: "filesystem \<Rightarrow> pyerr + filesystem" where
  "reopen fs = FileSystem_open (close fs)"

subsection \<open>Paths and directories\<close>

definition split_path :: "pystr \<Rightarrow> pystr option \<times> pystr option" where
  "split_path path0 =
    (let path = rstrip SLASH path0 in
     if path = [SLASH] then (None, None)
     else (case rfind SLASH path of
        None \<Rightarrow> (Some [SLASH], Some path)
      | Some pos \<Rightarrow>
          if pos = 0 then (Some [SLASH], Some (drop 1 path))
          else (Some (take pos path), Some (drop (pos + 1) path))))"

text \<open>
  The \<open>while offset < BLOCK_SIZE\<close> loop that \<open>_lookup_in_directory\<close>, \<open>list_directory\<close>,
  \<open>_add_dir_entry\<close> and \<open>_remove_dir_entry\<close> share: the entries decoded from \<open>offset\<close> on,
  in order, and how the loop ended, with the offset it stopped at or the exception it
  raised (\<open>IndexError\<close> from \<open>block_data[offset]\<close> on a block read short).
\<close>

function scan_dir :: "bytes \<Rightarrow> nat \<Rightarrow> dir_entry list \<times> (pyerr + nat)" where
  "scan_dir block_data offset =
    (if offset < BLOCK_SIZE then
       (if offset \<ge> length block_data then ([], Inl IndexError)
        else if block_data ! offset = 0 then ([], Inr offset)
        else if offset + 8 \<le> BLOCK_SIZE then
          (case DirEntry_from_bytes (drop offset block_data) of
             Inl e \<Rightarrow> ([], Inl e)
           | Inr (entry, sz) \<Rightarrow>
               (case scan_dir block_data (offset + sz) of (es, r) \<Rightarrow> (entry # es, r)))
        else ([], Inr offset))
     else ([], Inr offset))"
  by pat_completeness auto
termination
  by (relation "measure (\<lambda>(block_data, offset). BLOCK_SIZE - offset)")
     (auto simp: DirEntry_from_bytes_def split: sum.splits)

fun lookup_blocks :: "block_device \<Rightarrow> inode \<Rightarrow> pystr option \<Rightarrow> nat list \<Rightarrow> pyerr + nat option"
where
  "lookup_blocks dev ino nm [] = Inr None"
| "lookup_blocks dev ino nm (i # is) =
    (if i \<ge> DIRECT_BLOCKS then Inr None
     else if direct_blocks ino ! i = Some 0 then lookup_blocks dev ino nm is
     else (case read_block dev (direct_blocks ino ! i) of Inl e \<Rightarrow> Inl e
       | Inr block_data \<Rightarrow>
          (case scan_dir block_data 0 of (entries, r) \<Rightarrow>
            (case find (\<lambda>entry. Some (name entry) = nm) entries of
               Some entry \<Rightarrow> Inr (Some (inode_num entry))
             | None \<Rightarrow> (case r of Inl e \<Rightarrow> Inl e
                        | Inr off \<Rightarrow> lookup_blocks dev ino nm is)))))"

definition lookup_in_directory ::
  "filesystem \<Rightarrow> nat option \<Rightarrow> pystr option \<Rightarrow> pyerr + nat option" where
  "lookup_in_directory fs dir_inode_num nm =
    (case table_get (inode_table fs) dir_inode_num of None \<Rightarrow> Inr None
     | Some ino \<Rightarrow>
        if file_type ino \<noteq> DIRECTORY then Inr None
        else lookup_blocks (device fs) ino nm [0..<block_count ino])"

fun walk :: "filesystem \<Rightarrow> pystr list \<Rightarrow> nat \<Rightarrow> pyerr + nat option" where
  "walk fs [] current_inode = Inr (Some current_inode)"
| "walk fs (part # parts) current_inode =
    (case lookup_in_directory fs (Some current_inode) (Some part) of Inl e \<Rightarrow> Inl e
     | Inr None \<Rightarrow> Inr None
     | Inr (Some n) \<Rightarrow> walk fs parts n)"

text \<open>\<open>_find_inode(None)\<close> raises \<open>AttributeError\<close> in \<open>path.strip\<close>.\<close>

definition find_inode :: "filesystem \<Rightarrow> pystr option \<Rightarrow> pyerr + nat option" where
  "find_inode fs path = (case path of None \<Rightarrow> Inl AttributeError
     | Some p \<Rightarrow>
        if p = [SLASH] then Inr (Some (root_inode (superblock fs)))
        else walk fs (filter (\<lambda>q. q \<noteq> []) (split SLASH (strip SLASH p)))
               (root_inode (superblock fs)))"

text \<open>\<open>list_directory\<close>: a zero slot ends the listing.\<close>

fun list_blocks :: "block_device \<Rightarrow> inode \<Rightarrow> nat list \<Rightarrow> pyerr + pystr list" where
  "list_blocks dev ino [] = Inr []"
| "list_blocks dev ino (i # is) =
    (if i \<ge> DIRECT_BLOCKS then Inr []
     else if direct_blocks ino ! i = Some 0 then Inr []
     else (case read_block dev (direct_blocks ino ! i) of Inl e \<Rightarrow> Inl e
       | Inr block_data \<Rightarrow>
          (case scan_dir block_data 0 of
             (entries, Inl e) \<Rightarrow> Inl e
           | (entries, Inr off) \<Rightarrow>
               (case list_blocks dev ino is of Inl e \<Rightarrow> Inl e
                | Inr rest \<Rightarrow> Inr (map name entries @ rest)))))"

definition list_directory :: "filesystem \<Rightarrow> pystr \<Rightarrow> pyerr + pystr list" where
  "list_directory fs path =
    (case find_inode fs (Some path) of Inl e \<Rightarrow> Inl e | Inr n \<Rightarrow>
     case table_get (inode_table fs) n of None \<Rightarrow> Inr []
     | Some ino \<Rightarrow>
        if file_type ino \<noteq> DIRECTORY then Inr []
        else list_blocks (device fs) ino [0..<block_count ino])"

text \<open>\<open>_add_dir_entry\<close>. The directory inode is mutated in place when it has no block yet,
  before the block is read.\<close>

definition add_dir_entry ::
  "filesystem \<Rightarrow> nat option \<Rightarrow> pystr option \<Rightarrow> nat \<Rightarrow> (pyerr + unit) \<times> filesystem" where
  "add_dir_entry fs dir_inode_num nm num =
    (case DirEntry_to_bytes num nm of Inl e \<Rightarrow> (Inl e, fs) | Inr entry_bytes \<Rightarrow>
     case dir_inode_num of None \<Rightarrow> (Inr (), fs) | Some d \<Rightarrow>
     case map_of (inode_table fs) d of None \<Rightarrow> (Inr (), fs) | Some ino \<Rightarrow>
     let (fs1, block_num) =
       (if block_count ino = 0
        then (case allocate_block (allocator fs) of (a', new_block) \<Rightarrow>
               (fs\<lparr>allocator := a',
                   inode_table := AList.update d
                     (ino\<lparr>direct_blocks := (direct_blocks ino)[0 := new_block],
                          block_count := 1\<rparr>) (inode_table fs)\<rparr>, new_block))
        else (fs, direct_blocks ino ! 0)) in
     case read_block (device fs1) block_num of Inl e \<Rightarrow> (Inl e, fs1) | Inr block_data \<Rightarrow>
     case scan_dir block_data 0 of
       (entries, Inl e) \<Rightarrow> (Inl e, fs1)
     | (entries, Inr offset) \<Rightarrow>
         if offset + length entry_bytes > BLOCK_SIZE then (Inr (), fs1)
         else (case write_block (device fs1) block_num
                      (set_slice offset (offset + length entry_bytes) entry_bytes block_data) of
                 Inl e \<Rightarrow> (Inl e, fs1)
               | Inr dev' \<Rightarrow> (Inr (), fs1\<lparr>device := dev'\<rparr>)))"

text \<open>The rewrite loop of \<open>_remove_dir_entry\<close>.\<close>

fun pack_entries :: "dir_entry list \<Rightarrow> bytes \<Rightarrow> nat \<Rightarrow> pyerr + bytes" where
  "pack_entries [] block_data write_offset = Inr block_data"
| "pack_entries (entry # es) block_data write_offset =
    (case DirEntry_to_bytes (inode_num entry) (Some (name entry)) of Inl e \<Rightarrow> Inl e
     | Inr entry_bytes \<Rightarrow>
        if write_offset + length entry_bytes \<le> BLOCK_SIZE
        then pack_entries es
               (set_slice write_offset (write_offset + length entry_bytes) entry_bytes block_data)
               (write_offset + length entry_bytes)
        else pack_entries es block_data write_offset)"

fun remove_blocks ::
  "block_device \<Rightarrow> inode \<Rightarrow> pystr option \<Rightarrow> nat list \<Rightarrow> (pyerr + unit) \<times> block_device" where
  "remove_blocks dev ino nm [] = (Inr (), dev)"
| "remove_blocks dev ino nm (i # is) =
    (if i \<ge> DIRECT_BLOCKS then (Inr (), dev)
     else if direct_blocks ino ! i = Some 0 then remove_blocks dev ino nm is
     else (case read_block dev (direct_blocks ino ! i) of Inl e \<Rightarrow> (Inl e, dev)
       | Inr block_data \<Rightarrow>
          (case scan_dir block_data 0 of
             (entries, Inl e) \<Rightarrow> (Inl e, dev)
           | (entries, Inr off) \<Rightarrow>
              (case pack_entries (filter (\<lambda>entry. Some (name entry) \<noteq> nm) entries)
                      (replicate BLOCK_SIZE 0) 0 of
                 Inl e \<Rightarrow> (Inl e, dev)
               | Inr block_data' \<Rightarrow>
                  (case write_block dev (direct_blocks ino ! i) block_data' of
                     Inl e \<Rightarrow> (Inl e, dev)
                   | Inr dev' \<Rightarrow> (Inr (), dev'))))))"

definition remove_dir_entry ::
  "filesystem \<Rightarrow> nat option \<Rightarrow> pystr option \<Rightarrow> (pyerr + unit) \<times> filesystem" where
  "remove_dir_entry fs dir_inode_num nm =
    (case table_get (inode_table fs) dir_inode_num of None \<Rightarrow> (Inr (), fs)
     | Some ino \<Rightarrow>
        (case remove_blocks (device fs) ino nm [0..<block_count ino] of
           (r, dev') \<Rightarrow> (r, fs\<lparr>device := dev'\<rparr>)))"

subsection \<open>Sync\<close>

definition sync :: "filesystem \<Rightarrow> (pyerr + unit) \<times> filesystem" where
  "sync fs =
    (let sb = (superblock fs)\<lparr>sb_free_blocks := int (free_blocks (allocator fs))\<rparr>;
         fs1 = fs\<lparr>superblock := sb\<rparr> in
     case Superblock_to_bytes sb of Inl e \<Rightarrow> (Inl e, fs1) | Inr sb_bytes \<Rightarrow>
     case write_block (device fs1) (Some 0) sb_bytes of Inl e \<Rightarrow> (Inl e, fs1) | Inr dev1 \<Rightarrow>
     case write_block dev1 (Some 1) (bitmap_block (allocator fs1)) of
       Inl e \<Rightarrow> (Inl e, fs1\<lparr>device := dev1\<rparr>)
     | Inr dev2 \<Rightarrow>
        (case write_inode_table dev2 (inode_table fs1) of
           (r, dev3) \<Rightarrow> (r, fs1\<lparr>device := dev3\<rparr>)))"

subsection \<open>The public operations\<close>

definition create_file :: "filesystem \<Rightarrow> nat \<Rightarrow> pystr \<Rightarrow> (pyerr + unit) \<times> filesystem" where
  "create_file fs now path =
    (case split_path path of (parent_path, filename) \<Rightarrow>
     case find_inode fs parent_path of Inl e \<Rightarrow> (Inl e, fs) | Inr parent_inode_num \<Rightarrow>
     case lookup_in_directory fs parent_inode_num filename of Inl e \<Rightarrow> (Inl e, fs)
     | Inr (Some existing) \<Rightarrow> (Inr (), fs)
     | Inr None \<Rightarrow>
        (let num = next_inode fs;
             fs1 = fs\<lparr>next_inode := next_inode fs + 1,
                      inode_table := AList.update num (Inode now REGULAR) (inode_table fs)\<rparr> in
         case add_dir_entry fs1 parent_inode_num filename num of
           (Inl e, fs2) \<Rightarrow> (Inl e, fs2)
         | (Inr u, fs2) \<Rightarrow> sync fs2))"

definition create_directory :: "filesystem \<Rightarrow> nat \<Rightarrow> pystr \<Rightarrow> (pyerr + unit) \<times> filesystem" where
  "create_directory fs now path =
    (case split_path path of (parent_path, dirname) \<Rightarrow>
     case find_inode fs parent_path of Inl e \<Rightarrow> (Inl e, fs) | Inr parent_inode_num \<Rightarrow>
     case lookup_in_directory fs parent_inode_num dirname of Inl e \<Rightarrow> (Inl e, fs)
     | Inr (Some existing) \<Rightarrow> (Inr (), fs)
     | Inr None \<Rightarrow>
        (case allocate_block (allocator fs) of (a', dir_block) \<Rightarrow>
         let num = next_inode fs;
             new_inode = (Inode now DIRECTORY)
               \<lparr>direct_blocks := (direct_blocks (Inode now DIRECTORY))[0 := dir_block],
                block_count := 1\<rparr>;
             fs1 = fs\<lparr>allocator := a', next_inode := next_inode fs + 1,
                      inode_table := AList.update num new_inode (inode_table fs)\<rparr> in
         case write_block (device fs1) dir_block (replicate BLOCK_SIZE 0) of
           Inl e \<Rightarrow> (Inl e, fs1)
         | Inr dev' \<Rightarrow>
            (case add_dir_entry (fs1\<lparr>device := dev'\<rparr>) parent_inode_num dirname num of
               (Inl e, fs2) \<Rightarrow> (Inl e, fs2)
             | (Inr u, fs2) \<Rightarrow> sync fs2)))"

text \<open>The two loops of \<open>write_file\<close>, on the allocator, the device and the inode they
  mutate; the third component of the result is the exception that stopped the loop.\<close>

fun free_loop :: "nat list \<Rightarrow> allocator \<Rightarrow> inode \<Rightarrow> allocator \<times> inode \<times> pyerr option" where
  "free_loop [] a ino = (a, ino, None)"
| "free_loop (i # is) a ino =
    (if i < DIRECT_BLOCKS \<and> direct_blocks ino ! i \<noteq> Some 0
     then (case free_block a (direct_blocks ino ! i) of Inl e \<Rightarrow> (a, ino, Some e)
           | Inr a' \<Rightarrow>
               free_loop is a' (ino\<lparr>direct_blocks := (direct_blocks ino)[i := Some 0]\<rparr>))
     else free_loop is a ino)"

fun alloc_loop ::
  "bytes \<Rightarrow> nat list \<Rightarrow> nat \<Rightarrow> allocator \<Rightarrow> block_device \<Rightarrow> inode
    \<Rightarrow> allocator \<times> block_device \<times> inode \<times> pyerr option" where
  "alloc_loop data [] written a dev ino = (a, dev, ino, None)"
| "alloc_loop data (i # is) written a dev ino =
    (case allocate_block a of (a', block) \<Rightarrow>
     let ino' = ino\<lparr>direct_blocks := (direct_blocks ino)[i := block]\<rparr>;
         to_write = min (length data - written) BLOCK_SIZE;
         block_data = set_slice 0 to_write (slice written (written + to_write) data)
                        (replicate BLOCK_SIZE 0) in
     case write_block dev block block_data of Inl e \<Rightarrow> (a', dev, ino', Some e)
     | Inr dev' \<Rightarrow> alloc_loop data is (written + to_write) a' dev' ino')"

definition write_file ::
  "filesystem \<Rightarrow> nat \<Rightarrow> pystr \<Rightarrow> bytes \<Rightarrow> (pyerr + unit) \<times> filesystem" where
  "write_file fs now path data =
    (case find_inode fs (Some path) of Inl e \<Rightarrow> (Inl e, fs) | Inr None \<Rightarrow> (Inr (), fs)
     | Inr (Some n) \<Rightarrow>
     case map_of (inode_table fs) n of None \<Rightarrow> (Inr (), fs) | Some ino \<Rightarrow>
     if file_type ino \<noteq> REGULAR then (Inr (), fs) else
     case free_loop [0..<block_count ino] (allocator fs) ino of
       (a1, ino1, Some e) \<Rightarrow>
         (Inl e, fs\<lparr>allocator := a1, inode_table := AList.update n ino1 (inode_table fs)\<rparr>)
     | (a1, ino1, None) \<Rightarrow>
        (let blocks_needed = (length data + BLOCK_SIZE - 1) div BLOCK_SIZE in
         case alloc_loop data [0..<min blocks_needed DIRECT_BLOCKS] 0 a1 (device fs) ino1 of
           (a2, dev2, ino2, Some e) \<Rightarrow>
             (Inl e, fs\<lparr>allocator := a2, device := dev2,
                        inode_table := AList.update n ino2 (inode_table fs)\<rparr>)
         | (a2, dev2, ino2, None) \<Rightarrow>
             sync (fs\<lparr>allocator := a2, device := dev2,
                     inode_table := AList.update n
                       (ino2\<lparr>size := length data, block_count := blocks_needed,
                             modified := now\<rparr>) (inode_table fs)\<rparr>)))"

fun read_loop :: "block_device \<Rightarrow> inode \<Rightarrow> nat list \<Rightarrow> nat \<Rightarrow> pyerr + bytes" where
  "read_loop dev ino [] remaining = Inr []"
| "read_loop dev ino (i # is) remaining =
    (if i \<ge> DIRECT_BLOCKS then Inr []
     else if direct_blocks ino ! i = Some 0 then Inr []
     else (case read_block dev (direct_blocks ino ! i) of Inl e \<Rightarrow> Inl e
       | Inr block_data \<Rightarrow>
          (let to_read = min remaining BLOCK_SIZE in
           if remaining - to_read = 0 then Inr (take to_read block_data)
           else (case read_loop dev ino is (remaining - to_read) of Inl e \<Rightarrow> Inl e
                 | Inr rest \<Rightarrow> Inr (take to_read block_data @ rest)))))"

definition read_file :: "filesystem \<Rightarrow> pystr \<Rightarrow> pyerr + bytes" where
  "read_file fs path =
    (case find_inode fs (Some path) of Inl e \<Rightarrow> Inl e | Inr n \<Rightarrow>
     case table_get (inode_table fs) n of None \<Rightarrow> Inr []
     | Some ino \<Rightarrow>
        if file_type ino \<noteq> REGULAR then Inr []
        else read_loop (device fs) ino [0..<block_count ino] (size ino))"

fun delete_loop :: "nat list \<Rightarrow> allocator \<Rightarrow> inode \<Rightarrow> allocator \<times> pyerr option" where
  "delete_loop [] a ino = (a, None)"
| "delete_loop (i # is) a ino =
    (if i < DIRECT_BLOCKS \<and> direct_blocks ino ! i \<noteq> Some 0
     then (case free_block a (direct_blocks ino ! i) of Inl e \<Rightarrow> (a, Some e)
           | Inr a' \<Rightarrow> delete_loop is a' ino)
     else delete_loop is a ino)"

definition delete_file :: "filesystem \<Rightarrow> pystr \<Rightarrow> (pyerr + unit) \<times> filesystem" where
  "delete_file fs path =
    (case split_path path of (parent_path, filename) \<Rightarrow>
     case find_inode fs parent_path of Inl e \<Rightarrow> (Inl e, fs) | Inr parent_inode_num \<Rightarrow>
     case lookup_in_directory fs parent_inode_num filename of Inl e \<Rightarrow> (Inl e, fs)
     | Inr None \<Rightarrow> (Inr (), fs)
     | Inr (Some file_inode_num) \<Rightarrow>
     case map_of (inode_table fs) file_inode_num of None \<Rightarrow> (Inr (), fs) | Some ino \<Rightarrow>
     case delete_loop [0..<block_count ino] (allocator fs) ino of
       (a1, Some e) \<Rightarrow> (Inl e, fs\<lparr>allocator := a1\<rparr>)
     | (a1, None) \<Rightarrow>
        (case remove_dir_entry
                (fs\<lparr>allocator := a1,
                    inode_table := AList.delete file_inode_num (inode_table fs)\<rparr>)
                parent_inode_num filename of
           (Inl e, fs2) \<Rightarrow> (Inl e, fs2)
         | (Inr u, fs2) \<Rightarrow> sync fs2))"

subsection \<open>Tree\<close>

text \<open>The string constants of \<open>tree\<close>, code point by code point as the source file has
  them.\<close>

definition connector :: "bool \<Rightarrow> pystr" where
  "connector is_last =
    (if is_last then [0xE2, 0x201D, 0x201D, 0xE2, 0x201D, 0x20AC, 0xE2, 0x201D, 0x20AC, 0x20]
     else [0xE2, 0x201D, 0x153, 0xE2, 0x201D, 0x20AC, 0xE2, 0x201D, 0x20AC, 0x20])"

definition CYCLE_MARKER :: pystr where
  "CYCLE_MARKER = [0xE2, 0x161, 0xA0, 0xEF, 0xB8, 0x20, 0x20] @ str ''[CYCLE DETECTED]''"

definition icon :: "FileType \<Rightarrow> pystr" where
  "icon t = (case t of DIRECTORY \<Rightarrow> [0xF0, 0x178, 0x201C, 0x20]
     | REGULAR \<Rightarrow> [0xF0, 0x178, 0x201C, 0x201E, 0x20])"

definition TAB :: nat where "TAB = 9"

text \<open>The results of the recursive calls in the order of the loop: the first exception
  escapes.\<close>

fun collect :: "(pyerr + 'a list) list \<Rightarrow> pyerr + 'a list" where
  "collect [] = Inr []"
| "collect (r # rs) =
    (case r of Inl e \<Rightarrow> Inl e
     | Inr ls \<Rightarrow> (case collect rs of Inl e \<Rightarrow> Inl e | Inr rest \<Rightarrow> Inr (ls @ rest)))"

text \<open>
  \<open>tree(path, prefix, is_last, visited)\<close>. Each recursive call gets a copy of \<open>visited\<close> that
  holds the inode number of its parent directory as well. The recursion ends because a
  call recurses only from an inode of the table that is not yet in \<open>visited\<close>: the number of
  such inodes falls with every level.
\<close>

function tree ::
  "filesystem \<Rightarrow> pystr \<Rightarrow> pystr \<Rightarrow> bool \<Rightarrow> nat set \<Rightarrow> pyerr + pystr list" where
  "tree fs path prefix is_last visited =
    (case find_inode fs (Some path) of Inl e \<Rightarrow> Inl e | Inr None \<Rightarrow> Inr []
     | Inr (Some n) \<Rightarrow>
        if n \<in> visited then Inr [prefix @ connector is_last @ CYCLE_MARKER]
        else (case map_of (inode_table fs) n of None \<Rightarrow> Inr []
          | Some ino \<Rightarrow>
             (let nm = (if path = [SLASH] then [SLASH] else last (split SLASH path));
                  line = (if prefix = [] then icon (file_type ino) @ nm
                          else prefix @ connector is_last @ icon (file_type ino) @ nm)
              in if file_type ino = DIRECTORY then
                   (case list_directory fs path of Inl e \<Rightarrow> Inl e
                    | Inr entries \<Rightarrow>
                       (case collect (map (\<lambda>(i, entry).
                                 tree fs
                                   (if path = [SLASH] then [SLASH] @ entry
                                    else path @ [SLASH] @ entry)
                                   (if prefix = [] then [TAB] else prefix @ [TAB])
                                   (i = length entries - 1)
                                   (insert n visited))
                               (enumerate 0 entries)) of
                          Inl e \<Rightarrow> Inl e
                        | Inr child_lines \<Rightarrow> Inr (line # child_lines)))
                 else Inr [line])))"
  by pat_completeness auto
termination
proof (relation "measure (\<lambda>(fs, path, prefix, is_last, visited).
                    card (fst ` set (inode_table fs) - visited))", goal_cases)
  case 1
  show ?case by simp
next
  case (2 fs path prefix is_last visited r n ino nm line entries ie i entry)
  have "n \<in> fst ` set (inode_table fs)"
    using 2 by (auto dest: map_of_SomeD simp: image_iff intro: bexI [where x = "(n, ino)"])
  moreover have "n \<notin> visited" using 2 by simp
  ultimately have "fst ` set (inode_table fs) - insert n visited
      \<subset> fst ` set (inode_table fs) - visited"
    by auto
  then show ?case
    by (simp add: psubset_card_mono)
qed

section \<open>Example states\<close>

text \<open>A directory inode as \<open>create\<close> and \<open>create_directory\<close> build it.\<close>

definition dir_inode :: "nat \<Rightarrow> nat option \<Rightarrow> inode" where
  "dir_inode now block = (Inode now DIRECTORY)
     \<lparr>direct_blocks := (direct_blocks (Inode now DIRECTORY))[0 := block], block_count := 1\<rparr>"

text \<open>
  A mounted 1 MiB image in which the directory \<open>/d\<close> (inode 2) has the same data block,
  block 10, as the root directory (inode 1), so that \<open>/d\<close> lists itself: \<open>block_d\<close> holds
  the one entry \<open>d \<rightarrow> 2\<close>.
\<close>

definition block_d :: bytes where
  "block_d = [2, 0, 0, 0, 1, 0, 0, 0, 100] @ replicate 4087 0"

definition fs_shared :: filesystem where
  "fs_shared = \<lparr>device = \<lparr>dev_block_count = 256, dev_size = 1048576,
        dev_blocks = (\<lambda>n. replicate BLOCK_SIZE 0)(10 := block_d)\<rparr>,
     allocator = \<lparr>total_blocks = 256, bitmap = [0xFF, 0x07] @ replicate 30 0\<rparr>,
     superblock = (Superblock 256 1000)\<lparr>sb_free_blocks := 245\<rparr>,
     inode_table = [(1, dir_inode 0 (Some 10)), (2, dir_inode 0 (Some 10))],
     next_inode = 3\<rparr>"

section \<open>Serialised forms\<close>

text \<open>
  What \<open>Inode.to_bytes\<close> produces, written as one concatenation, for an inode all of whose
  fields fit their on-disk width (\<open>inode_ok\<close>).
\<close>

definition slot_ok :: "nat option \<Rightarrow> bool" where
  "slot_ok b = (case b of None \<Rightarrow> False | Some n \<Rightarrow> n < 2 ^ 32)"

definition inode_ok :: "inode \<Rightarrow> bool" where
  "inode_ok ino = (size ino < 2 ^ 32 \<and> block_count ino < 2 ^ 32 \<and>
     length (direct_blocks ino) = DIRECT_BLOCKS \<and> list_all slot_ok (direct_blocks ino) \<and>
     indirect_block ino < 2 ^ 32 \<and> double_indirect_block ino < 2 ^ 32 \<and>
     created ino < 2 ^ 64 \<and> modified ino < 2 ^ 64 \<and> accessed ino < 2 ^ 64)"

definition inode_bytes :: "inode \<Rightarrow> bytes" where
  "inode_bytes ino =
     [int_of_FileType (file_type ino), 0, 0, 0] @ le_bytes 4 (size ino) @
     le_bytes 4 (block_count ino) @ concat (map (\<lambda>b. le_bytes 4 (the b)) (direct_blocks ino)) @
     le_bytes 4 (indirect_block ino) @ le_bytes 4 (double_indirect_block ino) @
     le_bytes 8 (created ino) @ le_bytes 8 (modified ino) @ le_bytes 8 (accessed ino) @
     replicate 36 0"

definition sb_ok :: "superblock \<Rightarrow> bool" where
  "sb_ok sb = (magic sb < 2 ^ 32 \<and> block_size sb < 2 ^ 32 \<and> sb_total_blocks sb < 2 ^ 32 \<and>
     inode_count sb < 2 ^ 32 \<and> 0 \<le> sb_free_blocks sb \<and> sb_free_blocks sb < 2 ^ 32 \<and>
     root_inode sb < 2 ^ 32)"

definition sb_bytes :: "superblock \<Rightarrow> bytes" where
  "sb_bytes sb = le_bytes 4 (magic sb) @ le_bytes 4 (block_size sb) @
     le_bytes 4 (sb_total_blocks sb) @ le_bytes 4 (inode_count sb) @
     le_bytes 4 (nat (sb_free_blocks sb)) @ le_bytes 4 (root_inode sb) @ replicate 4072 0"

definition record_bytes :: "nat \<times> inode \<Rightarrow> bytes" where
  "record_bytes r = le_bytes 4 (fst r) @ inode_bytes (snd r)"

definition table_bytes :: "(nat \<times> inode) list \<Rightarrow> bytes" where
  "table_bytes tbl = concat (map record_bytes tbl) @ replicate (BLOCK_SIZE - 132 * length tbl) 0"

definition record_ok :: "nat \<times> inode \<Rightarrow> bool" where
  "record_ok r = (0 < fst r \<and> fst r < 2 ^ 32 \<and> inode_ok (snd r))"

definition table_ok :: "(nat \<times> inode) list \<Rightarrow> bool" where
  "table_ok tbl = (list_all record_ok tbl \<and> distinct (map fst tbl) \<and> length tbl \<le> 31)"

definition dev_wf :: "block_device \<Rightarrow> bool" where
  "dev_wf d = (\<forall>n. length (dev_blocks d n) = BLOCK_SIZE)"

definition free_set :: "allocator \<Rightarrow> nat set" where
  "free_set a = {i. i < total_blocks a \<and> \<not> is_allocated a i}"

definition synced :: "filesystem \<Rightarrow> filesystem" where
  "synced fs =
    (let sb = (superblock fs)\<lparr>sb_free_blocks := int (free_blocks (allocator fs))\<rparr>
     in fs\<lparr>superblock := sb,
           device := (device fs)\<lparr>dev_size := max (dev_size (device fs)) (3 * BLOCK_SIZE),
             dev_blocks := (dev_blocks (device fs))
               (0 := sb_bytes sb, 1 := bitmap_block (allocator fs),
                2 := table_bytes (inode_table fs))\<rparr>\<rparr>)"

datatype op = CreateFile nat pystr | CreateDirectory nat pystr | WriteFile nat pystr bytes
  | DeleteFile pystr | Reopen

fun apply_op :: "filesystem \<Rightarrow> op \<Rightarrow> pyerr + filesystem" where
  "apply_op fs (CreateFile now path) = Inr (snd (create_file fs now path))"
| "apply_op fs (CreateDirectory now path) = Inr (snd (create_directory fs now path))"
| "apply_op fs (WriteFile now path data) = Inr (snd (write_file fs now path data))"
| "apply_op fs (DeleteFile path) = Inr (snd (delete_file fs path))"
| "apply_op fs Reopen = reopen fs"

fun assigned :: "filesystem \<Rightarrow> op list \<Rightarrow> nat list" where
  "assigned fs [] = []"
| "assigned fs (x # xs) =
    (case apply_op fs x of Inl e \<Rightarrow> []
     | Inr fs' \<Rightarrow>
        (if x \<noteq> Reopen \<and> next_inode fs' \<noteq> next_inode fs then [next_inode fs] else [])
          @ assigned fs' xs)"

definition fs_fresh :: filesystem where
  "fs_fresh = \<lparr>device = \<lparr>dev_block_count = 256, dev_size = 1048576,
        dev_blocks = (\<lambda>n. replicate BLOCK_SIZE 0)
          (0 := sb_bytes (Superblock 256 1000),
           1 := bitmap_block (BlockAllocator 256),
           10 := replicate BLOCK_SIZE 0,
           2 := table_bytes [(1, dir_inode 0 (Some 10))])\<rparr>,
     allocator = set_allocated (BlockAllocator 256) 10 True,
     superblock = Superblock 256 1000,
     inode_table = [(1, dir_inode 0 (Some 10))],
     next_inode = 2\<rparr>"

definition fs_reopened :: filesystem where
  "fs_reopened = fs_fresh\<lparr>allocator :=
     \<lparr>total_blocks = 256, bitmap = bitmap_block (BlockAllocator 256)\<rparr>\<rparr>"

definition block_f :: bytes where
  "block_f = [2, 0, 0, 0, 1, 0, 0, 0, 102] @ replicate 4087 0"

definition with_file :: "filesystem \<Rightarrow> filesystem" where
  "with_file fs = synced (fs\<lparr>next_inode := 3,
     inode_table := [(1, dir_inode 0 (Some 10)), (2, Inode 0 REGULAR)],
     device := (device fs)\<lparr>dev_blocks := (dev_blocks (device fs))(10 := block_f)\<rparr>\<rparr>)"

definition hello :: bytes where
  "hello = [104, 101, 108, 108, 111]"

definition block_hello :: bytes where
  "block_hello = hello @ replicate 4091 0"

definition hello_inode :: inode where
  "hello_inode = (Inode 0 REGULAR)
     \<lparr>direct_blocks := (direct_blocks (Inode 0 REGULAR))[0 := Some 10]\<rparr>
     \<lparr>size := 5, block_count := 1, modified := 0\<rparr>"

definition fs_clobbered :: filesystem where
  "fs_clobbered = synced ((with_file fs_reopened)
     \<lparr>allocator := set_allocated (allocator fs_reopened) 10 True,
      device := (device (with_file fs_reopened))
         \<lparr>dev_blocks := (dev_blocks (device (with_file fs_reopened)))(10 := block_hello)\<rparr>,
      inode_table := [(1, dir_inode 0 (Some 10)), (2, hello_inode)]\<rparr>)"

section \<open>Properties\<close>

subsection \<open>Byte-level helpers\<close>

lemma length_le_bytes [simp]: "length (le_bytes k v) = k"
  by (induction k arbitrary: v) auto

lemma le_bytes_4:
  "le_bytes 4 v = [of_nat (v mod 256), of_nat (v div 256 mod 256),
     of_nat (v div 256 div 256 mod 256), of_nat (v div 256 div 256 div 256 mod 256)]"
proof -
  have four: "(4::nat) = Suc (Suc (Suc (Suc 0)))" by simp
  show ?thesis unfolding four by simp
qed

lemma length_slice: "length (slice a b xs) = min (b - a) (length xs - a)"
  by (simp add: slice_def)

lemma rstrip_not_slash: "rstrip c s \<noteq> [c]"
proof -
  have "dropWhile (\<lambda>x. x = c) (rev s) \<noteq> [c]"
    by (metis (mono_tags, lifting) dropWhile_eq_Cons_conv)
  then have "rev (dropWhile (\<lambda>x. x = c) (rev s)) \<noteq> rev [c]"
    by (simp only: rev_is_rev_conv not_False_eq_True)
  then show ?thesis by (simp add: rstrip_def)
qed

subsection \<open>The inode codec\<close>

lemma le_nat_le_bytes: "le_nat (le_bytes k v) = v mod 256 ^ k"
proof (induction k arbitrary: v)
  case 0
  show ?case by simp
next
  case (Suc k)
  have "unat (of_nat (v mod 256) :: byte) = v mod 256"
    by (simp add: unat_of_nat)
  then show ?case
    by (simp add: Suc mod_mult2_eq)
qed

lemma le_nat_le_bytes_4: "v < 4294967296 \<Longrightarrow> le_nat (le_bytes 4 v) = v"
  by (simp add: le_nat_le_bytes)

lemma le_nat_le_bytes_8: "v < 18446744073709551616 \<Longrightarrow> le_nat (le_bytes 8 v) = v"
  by (simp add: le_nat_le_bytes)

lemma pack_into_I_at:
  "length pre = off \<Longrightarrow> v < 2 ^ 32 \<Longrightarrow> 4 \<le> k \<Longrightarrow>
   pack_into_I (pre @ replicate k 0) off (Some v) = Inr ((pre @ le_bytes 4 v) @ replicate (k - 4) 0)"
  by (simp add: pack_into_I_def pack_I_def set_slice_def)

lemma pack_into_Q_at:
  "length pre = off \<Longrightarrow> v < 2 ^ 64 \<Longrightarrow> 8 \<le> k \<Longrightarrow>
   pack_into_Q (pre @ replicate k 0) off v = Inr ((pre @ le_bytes 8 v) @ replicate (k - 8) 0)"
  by (simp add: pack_into_Q_def pack_Q_def set_slice_def)


lemma length_concat_le4 [simp]:
  "length (concat (map (\<lambda>b. le_bytes 4 (f b)) xs)) = 4 * length xs"
  by (induction xs) auto

lemma pack_direct_at:
  "n = 12 - i \<Longrightarrow> i \<le> 12 \<Longrightarrow> length db = 12 \<Longrightarrow> list_all slot_ok db \<Longrightarrow>
   length pre = 12 + i * 4 \<Longrightarrow> 4 * n \<le> k \<Longrightarrow>
   pack_direct db [i..<12] (pre @ replicate k 0)
     = Inr ((pre @ concat (map (\<lambda>b. le_bytes 4 (the b)) (drop i db))) @ replicate (k - 4 * n) 0)"
proof (induction n arbitrary: i pre k)
  case 0
  then show ?case by simp
next
  case (Suc n)
  then have i: "i < 12" by simp
  with Suc.prems have "slot_ok (db ! i)" by (simp add: list_all_length)
  then obtain v where v: "db ! i = Some v" "v < 2 ^ 32"
    by (auto simp: slot_ok_def split: option.splits)
  have up: "[i..<12] = i # [Suc i..<12]" using i by (simp add: upt_rec)
  have dr: "drop i db = db ! i # drop (Suc i) db"
    using i Suc.prems by (simp add: Cons_nth_drop_Suc)
  have p: "pack_into_I (pre @ replicate k 0) (12 + i * 4) (db ! i)
     = Inr ((pre @ le_bytes 4 v) @ replicate (k - 4) 0)"
    using v Suc.prems by (simp add: pack_into_I_at)
  have ih: "pack_direct db [Suc i..<12] ((pre @ le_bytes 4 v) @ replicate (k - 4) 0)
     = Inr (((pre @ le_bytes 4 v) @ concat (map (\<lambda>b. le_bytes 4 (the b)) (drop (Suc i) db)))
            @ replicate (k - 4 - 4 * n) 0)"
    using Suc.prems i by (intro Suc.IH) auto
  have k: "k - 4 - 4 * n = k - 4 * Suc n" by simp
  have "pack_direct db [i..<12] (pre @ replicate k 0)
      = pack_direct db [Suc i..<12] ((pre @ le_bytes 4 v) @ replicate (k - 4) 0)"
    unfolding up by (simp only: pack_direct.simps p sum.case)
  also note ih
  also have "Inr (((pre @ le_bytes 4 v) @ concat (map (\<lambda>b. le_bytes 4 (the b)) (drop (Suc i) db)))
            @ replicate (k - 4 - 4 * n) 0)
     = (Inr ((pre @ concat (map (\<lambda>b. le_bytes 4 (the b)) (drop i db)))
            @ replicate (k - 4 * Suc n) 0) :: pyerr + bytes)"
    by (simp add: dr v k)
  finally show ?case .
qed

lemma Inode_to_bytes_ok:
  assumes "inode_ok ino"
  shows "Inode_to_bytes ino = Inr (inode_bytes ino)"
proof -
  let ?ft = "int_of_FileType (file_type ino)"
  let ?db = "concat (map (\<lambda>b. le_bytes 4 (the b)) (direct_blocks ino))"
  have ok: "size ino < 2 ^ 32" "block_count ino < 2 ^ 32"
    "length (direct_blocks ino) = 12" "list_all slot_ok (direct_blocks ino)"
    "indirect_block ino < 2 ^ 32" "double_indirect_block ino < 2 ^ 32"
    "created ino < 2 ^ 64" "modified ino < 2 ^ 64" "accessed ino < 2 ^ 64"
    using assms by (simp_all add: inode_ok_def DIRECT_BLOCKS_def)
  have d0: "(replicate INODE_SIZE 0)[0 := ?ft] = [?ft, 0, 0, 0] @ replicate 124 0"
  proof -
    have "replicate 128 (0::byte) = replicate 4 0 @ replicate 124 0"
      using replicate_add [of 4 124 "0::byte"] by simp
    moreover have "replicate 4 (0::byte) = [0, 0, 0, 0]"
      by (simp add: numeral_eq_Suc)
    ultimately show ?thesis by (simp add: INODE_SIZE_def)
  qed
  have d1: "pack_into_I ([?ft, 0, 0, 0] @ replicate 124 0) 4 (Some (size ino))
     = Inr (([?ft, 0, 0, 0] @ le_bytes 4 (size ino)) @ replicate 120 0)"
    using ok pack_into_I_at [of "[?ft, 0, 0, 0]" 4 "size ino" 124] by simp
  let ?p1 = "[?ft, 0, 0, 0] @ le_bytes 4 (size ino)"
  have d2: "pack_into_I (?p1 @ replicate 120 0) 8 (Some (block_count ino))
     = Inr ((?p1 @ le_bytes 4 (block_count ino)) @ replicate 116 0)"
    using ok pack_into_I_at [of ?p1 8 "block_count ino" 120] by simp
  let ?p2 = "?p1 @ le_bytes 4 (block_count ino)"
  have d3: "pack_direct (direct_blocks ino) [0..<12] (?p2 @ replicate 116 0)
     = Inr ((?p2 @ ?db) @ replicate 68 0)"
    using pack_direct_at [of 12 0 "direct_blocks ino" ?p2 116] ok by simp
  let ?p3 = "?p2 @ ?db"
  have l3: "length ?p3 = 60" using ok by simp
  have d4: "pack_into_I (?p3 @ replicate 68 0) 60 (Some (indirect_block ino))
     = Inr ((?p3 @ le_bytes 4 (indirect_block ino)) @ replicate 64 0)"
    using ok l3 pack_into_I_at [of ?p3 60 "indirect_block ino" 68] by simp
  let ?p4 = "?p3 @ le_bytes 4 (indirect_block ino)"
  have l4: "length ?p4 = 64" using l3 by simp
  have d5: "pack_into_I (?p4 @ replicate 64 0) 64 (Some (double_indirect_block ino))
     = Inr ((?p4 @ le_bytes 4 (double_indirect_block ino)) @ replicate 60 0)"
    using ok l4 pack_into_I_at [of ?p4 64 "double_indirect_block ino" 64] by simp
  let ?p5 = "?p4 @ le_bytes 4 (double_indirect_block ino)"
  have l5: "length ?p5 = 68" using l4 by simp
  have d6: "pack_into_Q (?p5 @ replicate 60 0) 68 (created ino)
     = Inr ((?p5 @ le_bytes 8 (created ino)) @ replicate 52 0)"
    using ok l5 pack_into_Q_at [of ?p5 68 "created ino" 60] by simp
  let ?p6 = "?p5 @ le_bytes 8 (created ino)"
  have l6: "length ?p6 = 76" using l5 by simp
  have d7: "pack_into_Q (?p6 @ replicate 52 0) 76 (modified ino)
     = Inr ((?p6 @ le_bytes 8 (modified ino)) @ replicate 44 0)"
    using ok l6 pack_into_Q_at [of ?p6 76 "modified ino" 52] by simp
  let ?p7 = "?p6 @ le_bytes 8 (modified ino)"
  have l7: "length ?p7 = 84" using l6 by simp
  have d8: "pack_into_Q (?p7 @ replicate 44 0) 84 (accessed ino)
     = Inr ((?p7 @ le_bytes 8 (accessed ino)) @ replicate 36 0)"
    using ok l7 pack_into_Q_at [of ?p7 84 "accessed ino" 44] by simp
  show ?thesis
    unfolding Inode_to_bytes_def Let_def d0 DIRECT_BLOCKS_def
    by (simp only: d1 d2 d3 d4 d5 d6 d7 d8 sum.case) (simp add: inode_bytes_def)
qed

lemma length_inode_bytes:
  "length (direct_blocks ino) = DIRECT_BLOCKS \<Longrightarrow> length (inode_bytes ino) = 128"
  by (simp add: inode_bytes_def DIRECT_BLOCKS_def)


lemma slice_concat_le4:
  "i < length xs \<Longrightarrow>
   slice (i * 4) (i * 4 + 4) (concat (map (\<lambda>b. le_bytes 4 (f b)) xs) @ post) = le_bytes 4 (f (xs ! i))"
proof (induction xs arbitrary: i)
  case Nil
  then show ?case by simp
next
  case (Cons x xs)
  show ?case
  proof (cases i)
    case 0
    then show ?thesis by (simp add: slice_def)
  next
    case (Suc j)
    with Cons.prems have "j < length xs" by simp
    from Cons.IH [OF this] show ?thesis
      using Suc by (simp add: slice_def)
  qed
qed

lemma slice_pre:
  "length pre = a \<Longrightarrow> slice (a + b) (a + c) (pre @ xs) = slice b c xs"
  by (simp add: slice_def)

lemma unpack_direct_at:
  "n = 12 - i \<Longrightarrow> i \<le> 12 \<Longrightarrow> length db = 12 \<Longrightarrow> list_all slot_ok db \<Longrightarrow> length pre = 12 \<Longrightarrow>
   unpack_direct (pre @ concat (map (\<lambda>b. le_bytes 4 (the b)) db) @ post) [i..<12] = Inr (drop i db)"
proof (induction n arbitrary: i)
  case 0
  then show ?case by simp
next
  case (Suc n)
  then have i: "i < 12" by simp
  with Suc.prems have "slot_ok (db ! i)" by (simp add: list_all_length)
  then obtain v where v: "db ! i = Some v" "v < 2 ^ 32"
    by (auto simp: slot_ok_def split: option.splits)
  have up: "[i..<12] = i # [Suc i..<12]" using i by (simp add: upt_rec)
  have dr: "drop i db = db ! i # drop (Suc i) db"
    using i Suc.prems by (simp add: Cons_nth_drop_Suc)
  have sl: "slice (12 + i * 4) (12 + i * 4 + 4)
              (pre @ concat (map (\<lambda>b. le_bytes 4 (the b)) db) @ post) = le_bytes 4 v"
    using slice_pre [of pre 12 "i * 4" "i * 4 + 4"] slice_concat_le4 [of i db the post] i Suc.prems v
    by (simp add: add.assoc)
  have ih: "unpack_direct (pre @ concat (map (\<lambda>b. le_bytes 4 (the b)) db) @ post) [Suc i..<12]
     = Inr (drop (Suc i) db)"
    using Suc.prems i by (intro Suc.IH) auto
  show ?case
    unfolding up
    using v by (simp only: unpack_direct.simps sl ih) (simp add: unpack_I_def le_nat_le_bytes_4 dr)
qed

lemma FileType_of_byte:
  "(if int_of_FileType t = 1 then REGULAR else if int_of_FileType t = 2 then DIRECTORY
    else REGULAR) = t"
  by (cases t) (simp_all add: int_of_FileType_def)

lemma Inode_from_bytes_inode_bytes:
  assumes "inode_ok ino"
  shows "Inode_from_bytes (inode_bytes ino) = Inr ino"
proof -
  let ?db = "concat (map (\<lambda>b. le_bytes 4 (the b)) (direct_blocks ino))"
  have ok: "size ino < 2 ^ 32" "block_count ino < 2 ^ 32"
    "length (direct_blocks ino) = 12" "list_all slot_ok (direct_blocks ino)"
    "indirect_block ino < 2 ^ 32" "double_indirect_block ino < 2 ^ 32"
    "created ino < 2 ^ 64" "modified ino < 2 ^ 64" "accessed ino < 2 ^ 64"
    using assms by (simp_all add: inode_ok_def DIRECT_BLOCKS_def)
  have s1: "slice 4 8 (inode_bytes ino) = le_bytes 4 (size ino)"
    and s2: "slice 8 12 (inode_bytes ino) = le_bytes 4 (block_count ino)"
    and s3: "slice 60 64 (inode_bytes ino) = le_bytes 4 (indirect_block ino)"
    and s4: "slice 64 68 (inode_bytes ino) = le_bytes 4 (double_indirect_block ino)"
    and s5: "slice 68 76 (inode_bytes ino) = le_bytes 8 (created ino)"
    and s6: "slice 76 84 (inode_bytes ino) = le_bytes 8 (modified ino)"
    and s7: "slice 84 92 (inode_bytes ino) = le_bytes 8 (accessed ino)"
    using ok by (simp_all add: inode_bytes_def slice_def)
  have ud: "unpack_direct (inode_bytes ino) [0..<DIRECT_BLOCKS] = Inr (direct_blocks ino)"
    using unpack_direct_at [of 12 0 "direct_blocks ino"
        "[int_of_FileType (file_type ino), 0, 0, 0] @ le_bytes 4 (size ino) @
           le_bytes 4 (block_count ino)"] ok
    by (simp add: inode_bytes_def DIRECT_BLOCKS_def)
  have h: "inode_bytes ino \<noteq> []" "inode_bytes ino ! 0 = int_of_FileType (file_type ino)"
    by (simp_all add: inode_bytes_def)
  show ?thesis
    unfolding Inode_from_bytes_def Let_def
    using ok by (simp only: s1 s2 s3 s4 s5 s6 s7 ud h FileType_of_byte)
       (simp add: unpack_I_def unpack_Q_def le_nat_le_bytes_4 le_nat_le_bytes_8)
qed

subsection \<open>Superblock\<close>

text \<open>
  C10. For every 4096-byte block \<open>b\<close>, \<open>Superblock.from_bytes(b)\<close> returns a superblock whose
  \<open>magic\<close> is \<open>0xDEADBEEF\<close> whatever the bytes \<open>b[0:4]\<close> are (the constructor sets it and
  the value read is dropped), while \<open>block_size\<close>, \<open>total_blocks\<close>, \<open>inode_count\<close>,
  \<open>free_blocks\<close> and \<open>root_inode\<close> are the little-endian values of \<open>b[4:8]\<close>, \<open>b[8:12]\<close>,
  \<open>b[12:16]\<close>, \<open>b[16:20]\<close> and \<open>b[20:24]\<close>.
\<close>

theorem Superblock_from_bytes_magic:
  assumes "length b = 4096"
  shows "Superblock_from_bytes b =
    Inr \<lparr>magic = 0xDEADBEEF, block_size = le_nat (slice 4 8 b),
         sb_total_blocks = le_nat (slice 8 12 b), inode_count = le_nat (slice 12 16 b),
         sb_free_blocks = int (le_nat (slice 16 20 b)), root_inode = le_nat (slice 20 24 b)\<rparr>"
  using assms
  by (simp add: Superblock_from_bytes_def unpack_I_def length_slice Superblock_def
      MAGIC_NUMBER_def)

text \<open>A block of 4096 bytes \<open>0xFF\<close>: the magic on disk is \<open>0xFFFFFFFF\<close>, the magic of the
  superblock object is \<open>0xDEADBEEF\<close>, and \<open>root_inode\<close> is read from the block.\<close>

theorem Superblock_from_bytes_magic_witness:
  "length (replicate 4096 (255 :: byte)) = 4096 \<and>
   le_nat (slice 0 4 (replicate 4096 (255 :: byte))) = 0xFFFFFFFF \<and>
   map_sum id magic (Superblock_from_bytes (replicate 4096 255)) = Inr 0xDEADBEEF \<and>
   map_sum id root_inode (Superblock_from_bytes (replicate 4096 255)) = Inr 0xFFFFFFFF"
proof -
  have r4: "replicate 4 (255 :: byte) = [255, 255, 255, 255]"
    by (simp add: numeral_eq_Suc)
  have len: "length (replicate 4096 (255 :: byte)) = 4096" by simp
  show ?thesis
    using Superblock_from_bytes_magic [OF len]
    by (simp add: slice_def r4)
qed

subsection \<open>Path splitting\<close>

text \<open>
  C8. \<open>_split_path\<close> strips the trailing slashes before it compares the path with \<open>"/"\<close>,
  so the comparison never succeeds: on the input \<open>"/"\<close> the stripped path is empty,
  \<open>rfind\<close> finds no slash, and the result is \<open>("/", "")\<close>, not \<open>(None, None)\<close>. No input at
  all yields \<open>None\<close> as parent.
\<close>

theorem split_path_root:
  "split_path (str ''/'') = (Some (str ''/''), Some []) \<and>
   (\<forall>p. fst (split_path p) \<noteq> None)"
proof
  show "split_path (str ''/'') = (Some (str ''/''), Some [])"
    by (simp add: split_path_def str_def rstrip_def SLASH_def)
  show "\<forall>p. fst (split_path p) \<noteq> None"
    by (simp add: split_path_def Let_def rstrip_not_slash split: option.splits)
qed

subsection \<open>Directory scans\<close>

declare scan_dir.simps [simp del]
declare read_inode_loop.simps [simp del]
declare tree.simps [simp del]

lemma scan_dir_end:
  "offset < BLOCK_SIZE \<Longrightarrow> offset < length block_data \<Longrightarrow> block_data ! offset = 0
   \<Longrightarrow> scan_dir block_data offset = ([], Inr offset)"
  by (simp add: scan_dir.simps [of block_data offset])

lemma scan_dir_entry:
  "offset + 8 \<le> BLOCK_SIZE \<Longrightarrow> offset < length block_data \<Longrightarrow> block_data ! offset \<noteq> 0
   \<Longrightarrow> DirEntry_from_bytes (drop offset block_data) = Inr (entry, sz)
   \<Longrightarrow> scan_dir block_data offset =
        (case scan_dir block_data (offset + sz) of (es, r) \<Rightarrow> (entry # es, r))"
  by (simp add: scan_dir.simps [of block_data offset])

lemma scan_block_d: "scan_dir block_d 0 = ([\<lparr>inode_num = 2, name = str ''d''\<rparr>], Inr 9)"
proof -
  have e: "DirEntry_from_bytes (drop 0 block_d) = Inr (\<lparr>inode_num = 2, name = str ''d''\<rparr>, 9)"
    by (simp add: DirEntry_from_bytes_def block_d_def slice_def unpack_I_def str_def)
  have z: "scan_dir block_d (0 + 9) = ([], Inr 9)"
    by (simp add: scan_dir_end block_d_def BLOCK_SIZE_def nth_append)
  show ?thesis
    using scan_dir_entry [OF _ _ _ e] z
    by (simp add: block_d_def BLOCK_SIZE_def)
qed

lemma lookup_shared:
  "n = 1 \<or> n = 2 \<Longrightarrow> lookup_in_directory fs_shared (Some n) (Some (str ''d'')) = Inr (Some 2)"
proof -
  assume n: "n = 1 \<or> n = 2"
  have rd: "read_block (device fs_shared) (Some 10) = Inr block_d"
    by (simp add: read_block_def fs_shared_def BLOCK_SIZE_def block_d_def)
  show ?thesis using n
    by (auto simp: lookup_in_directory_def table_get_def fs_shared_def [THEN arg_cong [where f = inode_table]]
        dir_inode_def Inode_def DIRECT_BLOCKS_def rd scan_block_d)
qed


text \<open>
  C6. When the name already exists in the resolved parent directory (the lookup returns an
  inode number), \<open>create_file\<close> and \<open>create_directory\<close> return at once and leave the whole
  filesystem as it was: no inode is added, no block allocated, \<open>next_inode\<close> is not advanced
  and no block of the device changes.
\<close>

theorem create_existing_noop:
  assumes "split_path path = (parent_path, filename)"
    and "find_inode fs parent_path = Inr parent_inode_num"
    and "lookup_in_directory fs parent_inode_num filename = Inr (Some existing)"
  shows "create_file fs now path = (Inr (), fs) \<and> create_directory fs now path = (Inr (), fs)"
  using assms by (simp add: create_file_def create_directory_def)

lemma find_root_shared: "find_inode fs_shared (Some (str ''/'')) = Inr (Some 1)"
  by (simp add: find_inode_def str_def SLASH_def fs_shared_def Superblock_def)

lemma find_d_shared: "find_inode fs_shared (Some (str ''/d'')) = Inr (Some 2)"
  using lookup_shared [of 1]
  by (simp add: find_inode_def str_def SLASH_def strip_def rstrip_def
      fs_shared_def [THEN arg_cong [where f = superblock]] Superblock_def)

lemma find_dd_shared: "find_inode fs_shared (Some (str ''/d/d'')) = Inr (Some 2)"
  using lookup_shared [of 1] lookup_shared [of 2]
  by (simp add: find_inode_def str_def SLASH_def strip_def rstrip_def
      fs_shared_def [THEN arg_cong [where f = superblock]] Superblock_def)

text \<open>In \<open>fs_shared\<close> the name \<open>d\<close> exists in the root directory.\<close>

theorem create_existing_noop_witness:
  "split_path (str ''/d'') = (Some (str ''/''), Some (str ''d'')) \<and>
   find_inode fs_shared (Some (str ''/'')) = Inr (Some 1) \<and>
   lookup_in_directory fs_shared (Some 1) (Some (str ''d'')) = Inr (Some 2) \<and>
   create_file fs_shared 7 (str ''/d'') = (Inr (), fs_shared) \<and>
   create_directory fs_shared 7 (str ''/d'') = (Inr (), fs_shared)"
proof -
  have sp: "split_path (str ''/d'') = (Some (str ''/''), Some (str ''d''))"
    by (simp add: split_path_def str_def rstrip_def SLASH_def)
  have lk: "lookup_in_directory fs_shared (Some 1) (Some (str ''d'')) = Inr (Some 2)"
    by (simp add: lookup_shared)
  show ?thesis
    using create_existing_noop [OF sp find_root_shared lk, of 7] sp find_root_shared lk
    by simp
qed

text \<open>
  C9. \<open>tree\<close> is a total function: its recursion is well-founded on every filesystem
  state, cyclic directory graphs included, by the termination proof above. When the path
  resolves to an inode that is already in \<open>visited\<close>, the call returns the single
  cycle-marker line under the connector of its position and makes no recursive call.
\<close>

theorem tree_cycle:
  assumes "find_inode fs (Some path) = Inr (Some n)" and "n \<in> visited"
  shows "tree fs path prefix is_last visited = Inr [prefix @ connector is_last @ CYCLE_MARKER]"
  using assms by (simp add: tree.simps [of fs path])

lemma list_shared:
  "p = str ''/'' \<or> p = str ''/d'' \<Longrightarrow> list_directory fs_shared p = Inr [str ''d'']"
proof -
  assume p: "p = str ''/'' \<or> p = str ''/d''"
  have rd: "read_block (device fs_shared) (Some 10) = Inr block_d"
    by (simp add: read_block_def fs_shared_def BLOCK_SIZE_def block_d_def)
  show ?thesis using p find_root_shared find_d_shared
    by (auto simp: list_directory_def table_get_def
        fs_shared_def [THEN arg_cong [where f = inode_table]]
        dir_inode_def Inode_def DIRECT_BLOCKS_def rd scan_block_d)
qed

text \<open>On \<open>fs_shared\<close>, \<open>/d/d\<close> resolves to inode 2 again, and \<open>tree("/")\<close> is three lines,
  the last one the cycle marker.\<close>

theorem tree_cycle_witness:
  "find_inode fs_shared (Some (str ''/d/d'')) = Inr (Some 2) \<and> (2::nat) \<in> {1, 2} \<and>
   tree fs_shared (str ''/d/d'') [TAB, TAB] True {1, 2}
     = Inr [[TAB, TAB] @ connector True @ CYCLE_MARKER] \<and>
   tree fs_shared (str ''/'') [] True {}
     = Inr [icon DIRECTORY @ str ''/'',
            [TAB] @ connector True @ icon DIRECTORY @ str ''d'',
            [TAB, TAB] @ connector True @ CYCLE_MARKER]"
proof -
  have c: "tree fs_shared (str ''/d/d'') [TAB, TAB] True {1, 2}
     = Inr [[TAB, TAB] @ connector True @ CYCLE_MARKER]"
    using tree_cycle [OF find_dd_shared, of "{1, 2}" "[TAB, TAB]" True] by simp
  have t1: "map_of (inode_table fs_shared) (Suc 0) = Some (dir_inode 0 (Some 10))"
    and t2: "map_of (inode_table fs_shared) 2 = Some (dir_inode 0 (Some 10))"
    by (simp_all add: fs_shared_def)
  have ft: "file_type (dir_inode 0 (Some 10)) = DIRECTORY"
    by (simp add: dir_inode_def Inode_def)
  have sl: "str ''/d'' \<noteq> [SLASH]" "str ''/'' = [SLASH]" "[SLASH] @ str ''d'' = str ''/d''"
    "str ''/d'' @ [SLASH] @ str ''d'' = str ''/d/d''"
    "str ''/d'' @ SLASH # str ''d'' = str ''/d/d''" "last (split SLASH (str ''/d'')) = str ''d''"
    by (simp_all add: str_def SLASH_def)
  have sl2: "SLASH # str ''d'' = str ''/d''"
    by (simp add: str_def SLASH_def)
  have fr: "find_inode fs_shared (Some [SLASH]) = Inr (Some (Suc 0))"
    using find_root_shared by (simp add: str_def SLASH_def)
  have lr: "list_directory fs_shared [SLASH] = Inr [str ''d'']"
    using list_shared [of "[SLASH]"] by (simp add: str_def SLASH_def)
  have d: "tree fs_shared (str ''/d'') [TAB] True {1}
     = Inr [[TAB] @ connector True @ icon DIRECTORY @ str ''d'',
            [TAB, TAB] @ connector True @ CYCLE_MARKER]"
    using c
    by (simp add: tree.simps [of fs_shared "str ''/d''"] find_d_shared t2 ft list_shared sl
        insert_commute)
  have r: "tree fs_shared (str ''/'') [] True {}
     = Inr [icon DIRECTORY @ str ''/'', [TAB] @ connector True @ icon DIRECTORY @ str ''d'',
            [TAB, TAB] @ connector True @ CYCLE_MARKER]"
    using d
    by (simp add: tree.simps [of fs_shared "[SLASH]"] fr t1 ft lr sl sl2)
  show ?thesis using c r find_dd_shared by simp
qed


subsection \<open>Superblock, device and inode table on disk\<close>

lemma Superblock_to_bytes_ok:
  assumes "sb_ok sb"
  shows "Superblock_to_bytes sb = Inr (sb_bytes sb)"
proof -
  have ok: "magic sb < 2 ^ 32" "block_size sb < 2 ^ 32" "sb_total_blocks sb < 2 ^ 32"
    "inode_count sb < 2 ^ 32" "0 \<le> sb_free_blocks sb" "nat (sb_free_blocks sb) < 2 ^ 32"
    "root_inode sb < 2 ^ 32"
    using assms by (auto simp: sb_ok_def)
  let ?p1 = "[] @ le_bytes 4 (magic sb)"
  have d0: "pack_into_I (replicate BLOCK_SIZE 0) 0 (Some (magic sb)) = Inr (?p1 @ replicate 4092 0)"
    using ok pack_into_I_at [of "[]" 0 "magic sb" 4096] by (simp add: BLOCK_SIZE_def)
  let ?p2 = "?p1 @ le_bytes 4 (block_size sb)"
  have d1: "pack_into_I (?p1 @ replicate 4092 0) 4 (Some (block_size sb)) = Inr (?p2 @ replicate 4088 0)"
    using ok pack_into_I_at [of ?p1 4 "block_size sb" 4092] by simp
  let ?p3 = "?p2 @ le_bytes 4 (sb_total_blocks sb)"
  have d2: "pack_into_I (?p2 @ replicate 4088 0) 8 (Some (sb_total_blocks sb)) = Inr (?p3 @ replicate 4084 0)"
    using ok pack_into_I_at [of ?p2 8 "sb_total_blocks sb" 4088] by simp
  let ?p4 = "?p3 @ le_bytes 4 (inode_count sb)"
  have d3: "pack_into_I (?p3 @ replicate 4084 0) 12 (Some (inode_count sb)) = Inr (?p4 @ replicate 4080 0)"
    using ok pack_into_I_at [of ?p3 12 "inode_count sb" 4084] by simp
  let ?p5 = "?p4 @ le_bytes 4 (nat (sb_free_blocks sb))"
  have d4: "pack_into_I (?p4 @ replicate 4080 0) 16 (Some (nat (sb_free_blocks sb)))
     = Inr (?p5 @ replicate 4076 0)"
    using ok pack_into_I_at [of ?p4 16 "nat (sb_free_blocks sb)" 4080] by simp
  let ?p6 = "?p5 @ le_bytes 4 (root_inode sb)"
  have d5: "pack_into_I (?p5 @ replicate 4076 0) 20 (Some (root_inode sb)) = Inr (?p6 @ replicate 4072 0)"
    using ok pack_into_I_at [of ?p5 20 "root_inode sb" 4076] by simp
  have nneg: "\<not> sb_free_blocks sb < 0" using ok by simp
  show ?thesis
    unfolding Superblock_to_bytes_def
    by (simp only: d0 d1 d2 d3 d4 d5 sum.case nneg if_False) (simp add: sb_bytes_def)
qed

lemma length_sb_bytes [simp]: "length (sb_bytes sb) = 4096"
  by (simp add: sb_bytes_def)

lemma Superblock_from_bytes_sb_bytes:
  assumes "sb_ok sb"
  shows "Superblock_from_bytes (sb_bytes sb) = Inr (sb\<lparr>magic := MAGIC_NUMBER\<rparr>)"
proof -
  have ok: "magic sb < 4294967296" "block_size sb < 4294967296" "sb_total_blocks sb < 4294967296"
    "inode_count sb < 4294967296" "0 \<le> sb_free_blocks sb" "nat (sb_free_blocks sb) < 4294967296"
    "root_inode sb < 4294967296"
    using assms by (auto simp: sb_ok_def)
  show ?thesis
    using ok
    by (simp add: Superblock_from_bytes_def sb_bytes_def slice_def unpack_I_def
        le_nat_le_bytes_4 Superblock_def)
qed

lemma write_block_full:
  "dev_wf d \<Longrightarrow> length data = BLOCK_SIZE \<Longrightarrow>
   write_block d (Some n) data =
     Inr (d\<lparr>dev_size := max (dev_size d) (n * BLOCK_SIZE + BLOCK_SIZE),
            dev_blocks := (dev_blocks d)(n := data)\<rparr>)"
  by (simp add: write_block_def dev_wf_def BLOCK_SIZE_def)

lemma read_block_full:
  "dev_wf d \<Longrightarrow> n * BLOCK_SIZE + BLOCK_SIZE \<le> dev_size d \<Longrightarrow>
   read_block d (Some n) = Inr (dev_blocks d n)"
  by (simp add: read_block_def dev_wf_def)

lemma set_slice_at:
  "length pre = a \<Longrightarrow> b = a + length src \<Longrightarrow> length src \<le> k \<Longrightarrow>
   set_slice a b src (pre @ replicate k 0) = (pre @ src) @ replicate (k - length src) 0"
  by (simp add: set_slice_def)


lemma length_record_bytes:
  "inode_ok (snd r) \<Longrightarrow> length (record_bytes r) = 132"
  by (simp add: record_bytes_def length_inode_bytes inode_ok_def)

lemma length_concat_records:
  "list_all record_ok tbl \<Longrightarrow> length (concat (map record_bytes tbl)) = 132 * length tbl"
  by (induction tbl) (auto simp: length_record_bytes record_ok_def)

lemma write_inode_loop_ok:
  "list_all record_ok tbl \<Longrightarrow> length pre = off \<Longrightarrow> off + 132 * length tbl \<le> 4096 \<Longrightarrow>
   write_inode_loop tbl (pre @ replicate (4096 - off) 0) off dev
     = (Inr ((pre @ concat (map record_bytes tbl)) @ replicate (4096 - off - 132 * length tbl) 0,
             off + 132 * length tbl), dev)"
proof (induction tbl arbitrary: pre off)
  case Nil
  then show ?case by simp
next
  case (Cons r rest)
  obtain num ino where r: "r = (num, ino)" by (cases r)
  from Cons.prems have "record_ok r" and rest: "list_all record_ok rest" by simp_all
  with r have ok: "num < 2 ^ 32" "inode_ok ino" "list_all record_ok rest"
    by (simp_all add: record_ok_def)
  have len: "length (inode_bytes ino) = 128"
    using ok by (simp add: length_inode_bytes inode_ok_def)
  have off: "off + 132 \<le> 4096" using Cons.prems by simp
  have p: "pack_into_I (pre @ replicate (4096 - off) 0) off (Some num)
      = Inr ((pre @ le_bytes 4 num) @ replicate (4096 - off - 4) 0)"
    using pack_into_I_at [of pre off num "4096 - off"] Cons.prems ok off by simp
  have ss: "set_slice (off + 4) (off + 4 + INODE_SIZE) (inode_bytes ino)
              ((pre @ le_bytes 4 num) @ replicate (4096 - off - 4) 0)
      = (pre @ record_bytes r) @ replicate (4096 - (off + 132)) 0"
    using set_slice_at [of "pre @ le_bytes 4 num" "off + 4" "off + 4 + INODE_SIZE"
        "inode_bytes ino" "4096 - off - 4"] Cons.prems len off
    by (simp add: INODE_SIZE_def record_bytes_def r)
  have ih: "write_inode_loop rest ((pre @ record_bytes r) @ replicate (4096 - (off + 132)) 0)
      (off + 132) dev
     = (Inr (((pre @ record_bytes r) @ concat (map record_bytes rest))
              @ replicate (4096 - (off + 132) - 132 * length rest) 0,
             off + 132 + 132 * length rest), dev)"
    using Cons.prems ok
    by (intro Cons.IH) (simp_all add: length_record_bytes r)
  have nf: "\<not> off + 4 + INODE_SIZE > BLOCK_SIZE"
    using off by (simp add: INODE_SIZE_def BLOCK_SIZE_def)
  have o2: "off + 4 + INODE_SIZE = off + 132" by (simp add: INODE_SIZE_def)
  have "write_inode_loop ((num, ino) # rest) (pre @ replicate (4096 - off) 0) off dev
     = write_inode_loop rest
         (set_slice (off + 4) (off + 4 + INODE_SIZE) (inode_bytes ino)
            ((pre @ le_bytes 4 num) @ replicate (4096 - off - 4) 0))
         (off + 4 + INODE_SIZE) dev"
    by (simp only: write_inode_loop.simps Inode_to_bytes_ok [OF ok(2)] sum.case nf if_False
        prod.case p)
  also have "\<dots> = write_inode_loop rest
       ((pre @ record_bytes r) @ replicate (4096 - (off + 132)) 0) (off + 132) dev"
    by (simp only: o2 ss [unfolded o2])
  also note ih
  finally show ?case unfolding r by simp
qed

lemma write_inode_table_ok:
  assumes "table_ok tbl" and "tbl \<noteq> []" and "dev_wf dev"
  shows "write_inode_table dev tbl =
    (Inr (), dev\<lparr>dev_size := max (dev_size dev) (3 * BLOCK_SIZE),
                 dev_blocks := (dev_blocks dev)(2 := table_bytes tbl)\<rparr>)"
proof -
  have ok: "list_all record_ok tbl" "length tbl \<le> 31" "0 < length tbl"
    using assms by (simp_all add: table_ok_def)
  have w: "write_inode_loop tbl (replicate 4096 0) 0 dev
     = (Inr (table_bytes tbl, 132 * length tbl), dev)"
    using write_inode_loop_ok [of tbl "[]" 0 dev] ok
    by (simp add: table_bytes_def BLOCK_SIZE_def)
  have l: "length (table_bytes tbl) = BLOCK_SIZE"
    using ok by (simp add: table_bytes_def length_concat_records BLOCK_SIZE_def)
  show ?thesis
    using ok by (simp add: write_inode_table_def w write_block_full [OF assms(3) l] BLOCK_SIZE_def)
qed

lemma le_nat_replicate_0 [simp]: "le_nat (replicate k 0) = 0"
  by (induction k) auto

lemma update_append_new:
  "k \<notin> fst ` set acc \<Longrightarrow> AList.update k v acc = acc @ [(k, v)]"
  by (induction acc) auto

lemma fold_update_distinct:
  "distinct (map fst (acc @ tbl)) \<Longrightarrow>
   fold (\<lambda>(n, ino). AList.update n ino) tbl acc = acc @ tbl"
proof (induction tbl arbitrary: acc)
  case Nil
  then show ?case by simp
next
  case (Cons r rest)
  obtain k v where r: "r = (k, v)" by (cases r)
  from Cons.prems r have "k \<notin> fst ` set acc" by auto
  then have u: "AList.update k v acc = acc @ [(k, v)]" by (rule update_append_new)
  have "distinct (map fst ((acc @ [(k, v)]) @ rest))" using Cons.prems r by simp
  from Cons.IH [OF this] show ?case by (simp add: r u)
qed

lemma read_inode_loop_ok:
  "list_all record_ok tbl \<Longrightarrow> length pre = off \<Longrightarrow> off + 132 * length tbl \<le> 4096 \<Longrightarrow>
   read_inode_loop
     (pre @ concat (map record_bytes tbl) @ replicate (4096 - off - 132 * length tbl) 0) off acc
     = Inr (fold (\<lambda>(n, ino). AList.update n ino) tbl acc)"
proof (induction tbl arbitrary: pre off acc)
  case Nil
  show ?case
  proof (cases "off + 4 + INODE_SIZE \<le> BLOCK_SIZE")
    case True
    then have "slice off (off + 4) (pre @ replicate (4096 - off) 0) = replicate 4 0"
      using Nil by (simp add: slice_def INODE_SIZE_def BLOCK_SIZE_def min_def)
    then show ?thesis
      using True
      by (simp add: read_inode_loop.simps [of _ off] unpack_I_def)
  next
    case False
    then show ?thesis by (simp add: read_inode_loop.simps [of _ off])
  qed
next
  case (Cons r rest)
  obtain num ino where r: "r = (num, ino)" by (cases r)
  from Cons.prems have "record_ok r" and rest: "list_all record_ok rest" by simp_all
  with r have ok: "0 < num" "num < 4294967296" "inode_ok ino" "list_all record_ok rest"
    by (simp_all add: record_ok_def)
  have len: "length (inode_bytes ino) = 128"
    using ok by (simp add: length_inode_bytes inode_ok_def)
  have off: "off + 132 \<le> 4096" using Cons.prems by simp
  let ?k = "4096 - off - 132 * length (r # rest)"
  let ?blk = "pre @ concat (map record_bytes (r # rest)) @ replicate ?k 0"
  have s1: "slice off (off + 4) ?blk = le_bytes 4 num"
    using Cons.prems by (simp add: slice_def r record_bytes_def)
  have s2: "slice (off + 4) (off + 4 + INODE_SIZE) ?blk = inode_bytes ino"
    using Cons.prems len by (simp add: slice_def r record_bytes_def INODE_SIZE_def)
  have blk: "?blk = (pre @ record_bytes r) @ concat (map record_bytes rest)
       @ replicate (4096 - (off + 132) - 132 * length rest) 0"
    by simp
  have ih: "read_inode_loop ?blk (off + 132) (AList.update num ino acc)
     = Inr (fold (\<lambda>(n, ino). AList.update n ino) rest (AList.update num ino acc))"
    unfolding blk using Cons.prems ok
    by (intro Cons.IH) (simp_all add: length_record_bytes r)
  have c: "off + 4 + INODE_SIZE \<le> BLOCK_SIZE"
    using off by (simp add: INODE_SIZE_def BLOCK_SIZE_def)
  have o2: "off + 4 + INODE_SIZE = off + 132" by (simp add: INODE_SIZE_def)
  have "read_inode_loop ?blk off acc
     = (case unpack_I (slice off (off + 4) ?blk) of Inl e \<Rightarrow> Inl e
        | Inr num' \<Rightarrow>
           if num' = 0 then Inr acc
           else (case Inode_from_bytes (slice (off + 4) (off + 4 + INODE_SIZE) ?blk) of
                   Inl e \<Rightarrow> Inl e
                 | Inr ino' \<Rightarrow>
                     read_inode_loop ?blk (off + 4 + INODE_SIZE) (AList.update num' ino' acc)))"
    using c by (subst read_inode_loop.simps) (simp only: if_True)
  also have "\<dots> = read_inode_loop ?blk (off + 4 + INODE_SIZE) (AList.update num ino acc)"
    using ok
    by (simp only: s1 s2 Inode_from_bytes_inode_bytes [OF ok(3)])
       (simp add: unpack_I_def le_nat_le_bytes_4)
  also have "\<dots> = read_inode_loop ?blk (off + 132) (AList.update num ino acc)"
    by (simp only: o2)
  also note ih
  finally show ?case by (simp add: r)
qed

lemma read_inode_table_ok:
  assumes "table_ok tbl" and "dev_wf dev" and "3 * BLOCK_SIZE \<le> dev_size dev"
    and "dev_blocks dev 2 = table_bytes tbl"
  shows "read_inode_table dev = Inr tbl"
proof -
  have ok: "list_all record_ok tbl" "length tbl \<le> 31" "distinct (map fst tbl)"
    using assms by (simp_all add: table_ok_def)
  have rd: "read_block dev (Some 2) = Inr (table_bytes tbl)"
    using read_block_full [OF assms(2), of 2] assms by simp
  have "read_inode_loop (table_bytes tbl) 0 [] = Inr (fold (\<lambda>(n, ino). AList.update n ino) tbl [])"
    using read_inode_loop_ok [of tbl "[]" 0 "[]"] ok
    by (simp add: table_bytes_def BLOCK_SIZE_def)
  then show ?thesis
    using fold_update_distinct [of "[]" tbl] ok by (simp add: read_inode_table_def rd)
qed

subsection \<open>Allocator and sync\<close>

lemma is_allocated_bit:
  "is_allocated a n = (n div 8 < length (bitmap a) \<and> bit (bitmap a ! (n div 8)) (n mod 8))"
  by (auto simp: is_allocated_def Let_def bit_iff_and_push_bit_not_eq_0)

lemma length_bitmap_set_allocated [simp]:
  "length (bitmap (set_allocated a j v)) = length (bitmap a)"
  by (simp add: set_allocated_def Let_def)

lemma total_blocks_set_allocated [simp]:
  "total_blocks (set_allocated a j v) = total_blocks a"
  by (simp add: set_allocated_def Let_def)

lemma mod8_neq: "i \<noteq> j \<Longrightarrow> i div 8 = j div 8 \<Longrightarrow> i mod 8 \<noteq> (j mod 8 :: nat)"
  by (metis div_mult_mod_eq)

lemma is_allocated_set_allocated:
  "is_allocated (set_allocated a j v) i =
     (if i = j \<and> j div 8 < length (bitmap a) then v else is_allocated a i)"
proof (cases "j div 8 < length (bitmap a)")
  case False
  then show ?thesis by (simp add: set_allocated_def Let_def)
next
  case True
  have m: "j mod 8 < 8" by simp
  show ?thesis
  proof (cases "i div 8 = j div 8")
    case False
    then have "i \<noteq> j" by auto
    with False True show ?thesis
      by (auto simp: is_allocated_bit set_allocated_def Let_def)
  next
    case same: True
    show ?thesis
    proof (cases "i = j")
      case True
      with \<open>j div 8 < length (bitmap a)\<close> show ?thesis
        by (auto simp: is_allocated_bit set_allocated_def Let_def bit_or_iff bit_and_iff
            bit_not_iff bit_push_bit_iff bit_1_iff bit_exp_iff possible_bit_word)
    next
      case False
      then have "i mod 8 \<noteq> j mod 8" using same by (rule mod8_neq)
      with False same \<open>j div 8 < length (bitmap a)\<close> show ?thesis
        by (auto simp: is_allocated_bit set_allocated_def Let_def bit_or_iff bit_and_iff
            bit_not_iff bit_push_bit_iff bit_1_iff bit_exp_iff possible_bit_word)
    qed
  qed
qed

lemma is_allocated_fold:
  "m \<le> 8 * length (bitmap a0) \<Longrightarrow>
   is_allocated (fold (\<lambda>i a. set_allocated a i True) [0..<m] a0) j = (j < m \<or> is_allocated a0 j)"
proof (induction m)
  case 0
  then show ?case by simp
next
  case (Suc m)
  have len: "length (bitmap (fold (\<lambda>i a. set_allocated a i True) [0..<m] a0)) = length (bitmap a0)"
    by (induction m) simp_all
  have "m div 8 < length (bitmap a0)" using Suc.prems by (simp add: div_less_iff_less_mult)
  with Suc len show ?case
    by (auto simp: is_allocated_set_allocated)
qed

lemma is_allocated_BlockAllocator:
  "is_allocated (BlockAllocator tb) j = (j < min 10 tb)"
proof -
  have "min 10 tb \<le> 8 * ((tb + 7) div 8)" by simp
  then show ?thesis
    unfolding BlockAllocator_def
    by (subst is_allocated_fold) (simp_all add: is_allocated_def)
qed

lemma total_blocks_BlockAllocator [simp]: "total_blocks (BlockAllocator tb) = tb"
proof -
  have "total_blocks (fold (\<lambda>i a. set_allocated a i True) xs a0) = total_blocks a0" for xs a0
    by (induction xs arbitrary: a0) simp_all
  then show ?thesis by (simp add: BlockAllocator_def)
qed

lemma length_bitmap_BlockAllocator [simp]: "length (bitmap (BlockAllocator tb)) = (tb + 7) div 8"
proof -
  have "length (bitmap (fold (\<lambda>i a. set_allocated a i True) xs a0)) = length (bitmap a0)" for xs a0
    by (induction xs arbitrary: a0) simp_all
  then show ?thesis by (simp add: BlockAllocator_def)
qed

lemma allocate_block_least:
  assumes "i < total_blocks a" and "\<not> is_allocated a i" and "\<forall>j<i. is_allocated a j"
  shows "allocate_block a = (set_allocated a i True, Some i)"
proof -
  have "find (\<lambda>i. \<not> is_allocated a i) [0..<total_blocks a] = Some i"
    unfolding find_Some_iff using assms by (intro exI [where x = i]) auto
  then show ?thesis by (simp add: allocate_block_def)
qed

lemma allocate_block_None:
  "(\<forall>j<total_blocks a. is_allocated a j) \<Longrightarrow> allocate_block a = (a, None)"
  by (simp add: allocate_block_def find_None_iff [THEN iffD2])

lemma allocate_block_free:
  assumes "free_set a \<noteq> {}"
  shows "\<exists>i. allocate_block a = (set_allocated a i True, Some i) \<and> i \<in> free_set a"
proof -
  from assms obtain k where "k < total_blocks a" "\<not> is_allocated a k"
    by (auto simp: free_set_def)
  then have "find (\<lambda>i. \<not> is_allocated a i) [0..<total_blocks a] \<noteq> None"
    by (auto simp: find_None_iff)
  then obtain i where f: "find (\<lambda>i. \<not> is_allocated a i) [0..<total_blocks a] = Some i" by auto
  then have "i \<in> free_set a"
    by (auto simp: find_Some_iff free_set_def)
  with f show ?thesis by (auto simp: allocate_block_def)
qed

lemma free_set_set_allocated: "free_set a - {i} \<subseteq> free_set (set_allocated a i True)"
  by (auto simp: free_set_def is_allocated_set_allocated)

lemma finite_free_set [simp]: "finite (free_set a)"
  by (simp add: free_set_def)

lemma free_blocks_le: "free_blocks a \<le> total_blocks a"
proof -
  have "length (filter (\<lambda>i. \<not> is_allocated a i) [0..<total_blocks a]) \<le> length [0..<total_blocks a]"
    by (rule length_filter_le)
  then show ?thesis by (simp add: free_blocks_def)
qed

lemma length_bitmap_block [simp]: "length (bitmap_block a) = BLOCK_SIZE"
  by (simp add: bitmap_block_def Let_def set_slice_def slice_def allocator_to_bytes_def)

lemma dev_wf_update:
  "dev_wf d \<Longrightarrow> length data = BLOCK_SIZE \<Longrightarrow>
   dev_wf (d\<lparr>dev_size := s, dev_blocks := (dev_blocks d)(n := data)\<rparr>)"
  by (simp add: dev_wf_def)

lemma sync_ok:
  assumes wf: "dev_wf (device fs)" and sb: "sb_ok (superblock fs)"
    and tb: "total_blocks (allocator fs) < 2 ^ 32"
    and tbl: "table_ok (inode_table fs)" "inode_table fs \<noteq> []"
  shows "sync fs = (Inr (), synced fs)"
proof -
  let ?sb = "(superblock fs)\<lparr>sb_free_blocks := int (free_blocks (allocator fs))\<rparr>"
  have "free_blocks (allocator fs) < 2 ^ 32"
    using free_blocks_le [of "allocator fs"] tb by simp
  then have sbo: "sb_ok ?sb" using sb by (simp add: sb_ok_def)
  let ?fs1 = "fs\<lparr>superblock := ?sb\<rparr>"
  let ?d1 = "(device ?fs1)\<lparr>dev_size := max (dev_size (device ?fs1)) (0 * BLOCK_SIZE + BLOCK_SIZE),
       dev_blocks := (dev_blocks (device ?fs1))(0 := sb_bytes ?sb)\<rparr>"
  have wf': "dev_wf (device ?fs1)" using wf by simp
  have w0: "write_block (device ?fs1) (Some 0) (sb_bytes ?sb) = Inr ?d1"
    by (rule write_block_full [OF wf']) (simp add: BLOCK_SIZE_def)
  have wf1: "dev_wf ?d1" by (rule dev_wf_update [OF wf']) (simp add: BLOCK_SIZE_def)
  let ?d2 = "?d1\<lparr>dev_size := max (dev_size ?d1) (1 * BLOCK_SIZE + BLOCK_SIZE),
       dev_blocks := (dev_blocks ?d1)(1 := bitmap_block (allocator ?fs1))\<rparr>"
  have w1: "write_block ?d1 (Some 1) (bitmap_block (allocator ?fs1)) = Inr ?d2"
    by (rule write_block_full [OF wf1]) simp
  have wf2: "dev_wf ?d2" by (rule dev_wf_update [OF wf1]) simp
  have tbl': "table_ok (inode_table ?fs1)" "inode_table ?fs1 \<noteq> []" using tbl by simp_all
  note w2 = write_inode_table_ok [OF tbl' wf2]
  have "sync fs = (Inr (), ?fs1\<lparr>device := ?d2\<lparr>dev_size := max (dev_size ?d2) (3 * BLOCK_SIZE),
                 dev_blocks := (dev_blocks ?d2)(2 := table_bytes (inode_table ?fs1))\<rparr>\<rparr>)"
    unfolding sync_def Let_def
    by (simp only: Superblock_to_bytes_ok [OF sbo] sum.case w0 w1 w2 prod.case)
  also have "\<dots> = (Inr (), synced fs)"
    by (simp add: synced_def Let_def BLOCK_SIZE_def)
  finally show ?thesis .
qed

lemma sync_frame [simp]:
  "inode_table (snd (sync fs)) = inode_table fs"
  "allocator (snd (sync fs)) = allocator fs"
  "next_inode (snd (sync fs)) = next_inode fs"
  by (auto simp: sync_def Let_def split: sum.splits prod.splits)

subsection \<open>Inode numbers within one mount\<close>

lemma add_dir_entry_frame [simp]:
  "next_inode (snd (add_dir_entry fs d nm num)) = next_inode fs"
  by (auto simp: add_dir_entry_def Let_def split: sum.splits option.splits prod.splits if_splits)

lemma remove_dir_entry_frame [simp]:
  "next_inode (snd (remove_dir_entry fs d nm)) = next_inode fs"
  "inode_table (snd (remove_dir_entry fs d nm)) = inode_table fs"
  "allocator (snd (remove_dir_entry fs d nm)) = allocator fs"
  by (auto simp: remove_dir_entry_def split: option.splits prod.splits)

lemma add_dir_entry_next:
  "add_dir_entry fs d nm num = (r, fs') \<Longrightarrow> next_inode fs' = next_inode fs"
  using add_dir_entry_frame [of fs d nm num] by simp

lemma remove_dir_entry_next:
  "remove_dir_entry fs d nm = (r, fs') \<Longrightarrow> next_inode fs' = next_inode fs"
  using remove_dir_entry_frame(1) [of fs d nm] by simp

lemma next_inode_create_file:
  "next_inode (snd (create_file fs now path)) =
    (case split_path path of (pp, nm) \<Rightarrow>
       case find_inode fs pp of Inl e \<Rightarrow> next_inode fs
       | Inr p \<Rightarrow> (case lookup_in_directory fs p nm of Inr None \<Rightarrow> next_inode fs + 1
                   | Inr (Some x) \<Rightarrow> next_inode fs | Inl e \<Rightarrow> next_inode fs))"
  unfolding create_file_def Let_def
  by (auto split: prod.splits sum.splits option.splits dest!: add_dir_entry_next)

lemma next_inode_create_directory:
  "next_inode (snd (create_directory fs now path)) =
    (case split_path path of (pp, nm) \<Rightarrow>
       case find_inode fs pp of Inl e \<Rightarrow> next_inode fs
       | Inr p \<Rightarrow> (case lookup_in_directory fs p nm of Inr None \<Rightarrow> next_inode fs + 1
                   | Inr (Some x) \<Rightarrow> next_inode fs | Inl e \<Rightarrow> next_inode fs))"
  unfolding create_directory_def Let_def
  by (auto split: prod.splits sum.splits option.splits dest!: add_dir_entry_next)

lemma next_inode_write_file [simp]:
  "next_inode (snd (write_file fs now path data)) = next_inode fs"
  unfolding write_file_def Let_def
  by (auto split: prod.splits sum.splits option.splits)

lemma next_inode_delete_file [simp]:
  "next_inode (snd (delete_file fs path)) = next_inode fs"
  unfolding delete_file_def Let_def
  by (auto split: prod.splits sum.splits option.splits dest!: remove_dir_entry_next)

lemma next_inode_apply_op:
  "x \<noteq> Reopen \<Longrightarrow> apply_op fs x = Inr fs' \<Longrightarrow>
   next_inode fs' = next_inode fs \<or> next_inode fs' = next_inode fs + 1"
  by (cases x)
     (auto simp: next_inode_create_file next_inode_create_directory
       split: prod.splits sum.splits option.splits)

lemma assigned_lower:
  "Reopen \<notin> set ops \<Longrightarrow> n \<in> set (assigned fs ops) \<Longrightarrow> next_inode fs \<le> n"
proof (induction ops arbitrary: fs)
  case Nil
  then show ?case by simp
next
  case (Cons x xs)
  show ?case
  proof (cases "apply_op fs x")
    case (Inl e)
    with Cons.prems show ?thesis by simp
  next
    case (Inr fs')
    from Cons.prems have x: "x \<noteq> Reopen" and xs: "Reopen \<notin> set xs" by auto
    from next_inode_apply_op [OF x Inr] have le: "next_inode fs \<le> next_inode fs'" by auto
    from Cons.prems(2) Inr have "n = next_inode fs \<or> n \<in> set (assigned fs' xs)"
      by (auto split: if_splits)
    then show ?thesis
      using Cons.IH [OF xs, of fs'] le by auto
  qed
qed

theorem assigned_increasing:
  "Reopen \<notin> set ops \<Longrightarrow> sorted_wrt (<) (assigned fs ops)"
proof (induction ops arbitrary: fs)
  case Nil
  then show ?case by simp
next
  case (Cons x xs)
  show ?case
  proof (cases "apply_op fs x")
    case (Inl e)
    then show ?thesis by simp
  next
    case (Inr fs')
    from Cons.prems have x: "x \<noteq> Reopen" and xs: "Reopen \<notin> set xs" by auto
    have s: "sorted_wrt (<) (assigned fs' xs)" by (rule Cons.IH [OF xs])
    show ?thesis
    proof (cases "next_inode fs' \<noteq> next_inode fs")
      case True
      with next_inode_apply_op [OF x Inr] have "next_inode fs' = next_inode fs + 1" by simp
      then have "\<forall>n\<in>set (assigned fs' xs). next_inode fs < n"
        using assigned_lower [OF xs, of _ fs'] by fastforce
      with s True Inr x show ?thesis by simp
    next
      case False
      with s Inr show ?thesis by simp
    qed
  qed
qed

subsection \<open>A freshly created image\<close>

lemma sb_ok_Superblock: "10 \<le> tb \<Longrightarrow> tb < 2 ^ 32 \<Longrightarrow> sb_ok (Superblock tb 1000)"
  by (simp add: sb_ok_def Superblock_def MAGIC_NUMBER_def BLOCK_SIZE_def)

lemma inode_ok_Inode: "now < 2 ^ 64 \<Longrightarrow> inode_ok (Inode now t)"
  by (simp add: inode_ok_def Inode_def slot_ok_def list_all_length)

lemma inode_ok_dir_inode: "now < 2 ^ 64 \<Longrightarrow> b < 2 ^ 32 \<Longrightarrow> inode_ok (dir_inode now (Some b))"
  by (simp add: inode_ok_def dir_inode_def Inode_def slot_ok_def list_all_length nth_list_update
      DIRECT_BLOCKS_def)

lemma allocate_fresh:
  "allocate_block (BlockAllocator 256) = (set_allocated (BlockAllocator 256) 10 True, Some 10)"
  by (rule allocate_block_least) (simp_all add: is_allocated_BlockAllocator)

lemma dev_wf_zero: "dev_wf \<lparr>dev_block_count = c, dev_size = s, dev_blocks = (\<lambda>n. replicate BLOCK_SIZE 0)\<rparr>"
  by (simp add: dev_wf_def)

lemma create_fresh: "FileSystem_create 1 0 = Inr fs_fresh"
proof -
  let ?d0 = "\<lparr>dev_block_count = 256, dev_size = 1048576,
      dev_blocks = (\<lambda>n. replicate BLOCK_SIZE 0)\<rparr>"
  have d0: "BlockDevice_create (nat 1) = ?d0"
    by (simp add: BlockDevice_create_def BLOCK_SIZE_def)
  have wf0: "dev_wf ?d0" by (rule dev_wf_zero)
  have sb: "Superblock_to_bytes (Superblock 256 1000) = Inr (sb_bytes (Superblock 256 1000))"
    by (rule Superblock_to_bytes_ok) (simp add: sb_ok_Superblock)
  let ?d1 = "?d0\<lparr>dev_size := max (dev_size ?d0) (0 * BLOCK_SIZE + BLOCK_SIZE),
       dev_blocks := (dev_blocks ?d0)(0 := sb_bytes (Superblock 256 1000))\<rparr>"
  have w0: "write_block ?d0 (Some 0) (sb_bytes (Superblock 256 1000)) = Inr ?d1"
    by (rule write_block_full [OF wf0]) (simp add: BLOCK_SIZE_def)
  have wf1: "dev_wf ?d1" by (rule dev_wf_update [OF wf0]) (simp add: BLOCK_SIZE_def)
  let ?d2 = "?d1\<lparr>dev_size := max (dev_size ?d1) (1 * BLOCK_SIZE + BLOCK_SIZE),
       dev_blocks := (dev_blocks ?d1)(1 := bitmap_block (BlockAllocator 256))\<rparr>"
  have w1: "write_block ?d1 (Some 1) (bitmap_block (BlockAllocator 256)) = Inr ?d2"
    by (rule write_block_full [OF wf1]) simp
  have wf2: "dev_wf ?d2" by (rule dev_wf_update [OF wf1]) simp
  let ?d3 = "?d2\<lparr>dev_size := max (dev_size ?d2) (10 * BLOCK_SIZE + BLOCK_SIZE),
       dev_blocks := (dev_blocks ?d2)(10 := replicate BLOCK_SIZE 0)\<rparr>"
  have w2: "write_block ?d2 (Some 10) (replicate BLOCK_SIZE 0) = Inr ?d3"
    by (rule write_block_full [OF wf2]) simp
  have wf3: "dev_wf ?d3" by (rule dev_wf_update [OF wf2]) simp
  have tok: "table_ok [(1, dir_inode 0 (Some 10))]"
    by (simp add: table_ok_def record_ok_def inode_ok_dir_inode)
  let ?d4 = "?d3\<lparr>dev_size := max (dev_size ?d3) (3 * BLOCK_SIZE),
         dev_blocks := (dev_blocks ?d3)(2 := table_bytes [(1, dir_inode 0 (Some 10))])\<rparr>"
  have w3: "write_inode_table ?d3 [(1, dir_inode 0 (Some 10))] = (Inr (), ?d4)"
    by (rule write_inode_table_ok [OF tok _ wf3]) simp
  have bc: "dev_block_count ?d0 = 256" by simp
  have neg: "\<not> (1::int) < 0" by simp
  have root: "(Inode 0 DIRECTORY)\<lparr>direct_blocks := (direct_blocks (Inode 0 DIRECTORY))[0 := Some 10],
       block_count := 1\<rparr> = dir_inode 0 (Some 10)"
    by (simp add: dir_inode_def)
  have "FileSystem_create 1 0 =
     Inr \<lparr>device = ?d4, allocator = set_allocated (BlockAllocator 256) 10 True,
       superblock = Superblock 256 1000, inode_table = [(1, dir_inode 0 (Some 10))],
       next_inode = 2\<rparr>"
    unfolding FileSystem_create_def Let_def d0
    by (simp only: neg if_False bc sb sum.case w0 w1 allocate_fresh prod.case root w2 w3)
  also have "?d4 = device fs_fresh"
    by (simp add: fs_fresh_def BLOCK_SIZE_def)
  finally show ?thesis by (simp add: fs_fresh_def)
qed

subsection \<open>Reopening a freshly created image\<close>

lemma dev_wf_fresh: "dev_wf (device fs_fresh)"
  by (simp add: fs_fresh_def dev_wf_def table_bytes_def BLOCK_SIZE_def
      length_concat_records record_ok_def inode_ok_dir_inode record_bytes_def length_inode_bytes
      dir_inode_def Inode_def DIRECT_BLOCKS_def)

lemma table_ok_fresh: "table_ok [(1, dir_inode 0 (Some 10))]"
  by (simp add: table_ok_def record_ok_def inode_ok_dir_inode)

lemma Superblock_magic: "(Superblock tb ic)\<lparr>magic := MAGIC_NUMBER\<rparr> = Superblock tb ic"
  by (simp add: Superblock_def)

lemma fresh_device [simp]:
  "dev_size (device fs_fresh) = 1048576"
  "dev_block_count (device fs_fresh) = 256"
  "dev_blocks (device fs_fresh) 0 = sb_bytes (Superblock 256 1000)"
  "dev_blocks (device fs_fresh) 1 = bitmap_block (BlockAllocator 256)"
  "dev_blocks (device fs_fresh) (Suc 0) = bitmap_block (BlockAllocator 256)"
  "dev_blocks (device fs_fresh) 2 = table_bytes [(1, dir_inode 0 (Some 10))]"
  "dev_blocks (device fs_fresh) 10 = replicate BLOCK_SIZE 0"
  by (simp_all add: fs_fresh_def)

lemma fresh_fields [simp]:
  "inode_table fs_fresh = [(1, dir_inode 0 (Some 10))]"
  "superblock fs_fresh = Superblock 256 1000"
  "next_inode fs_fresh = 2"
  "allocator fs_fresh = set_allocated (BlockAllocator 256) 10 True"
  by (simp_all add: fs_fresh_def)

lemma reopen_fresh: "reopen fs_fresh = Inr fs_reopened"
proof -
  let ?d = "BlockDevice_open (close fs_fresh)"
  have d: "?d = device fs_fresh"
    by (simp add: BlockDevice_open_def close_def BLOCK_SIZE_def)
  have r0: "read_block ?d (Some 0) = Inr (sb_bytes (Superblock 256 1000))"
    unfolding d using read_block_full [OF dev_wf_fresh, of 0] by (simp add: BLOCK_SIZE_def)
  have r1: "read_block ?d (Some 1) = Inr (bitmap_block (BlockAllocator 256))"
    unfolding d using read_block_full [OF dev_wf_fresh, of 1] by (simp add: BLOCK_SIZE_def)
  have sb: "Superblock_from_bytes (sb_bytes (Superblock 256 1000)) = Inr (Superblock 256 1000)"
    using Superblock_from_bytes_sb_bytes [of "Superblock 256 1000"]
    by (simp add: sb_ok_Superblock Superblock_magic)
  have rt: "read_inode_table ?d = Inr [(1, dir_inode 0 (Some 10))]"
    unfolding d
    by (rule read_inode_table_ok [OF table_ok_fresh dev_wf_fresh])
       (simp_all add: BLOCK_SIZE_def)
  have tb: "sb_total_blocks (Superblock 256 1000) = 256" by (simp add: Superblock_def)
  have "reopen fs_fresh = Inr \<lparr>device = ?d,
      allocator = BlockAllocator_from_bytes (bitmap_block (BlockAllocator 256)) 256,
      superblock = Superblock 256 1000, inode_table = [(1, dir_inode 0 (Some 10))],
      next_inode = (if [(1::nat, dir_inode 0 (Some 10))] = [] then 1
                    else fold max (map fst [(1::nat, dir_inode 0 (Some 10))]) 0) + 1\<rparr>"
    unfolding reopen_def FileSystem_open_def Let_def
    by (simp only: r0 sum.case sb r1 rt tb)
  also have "\<dots> = Inr fs_reopened"
    unfolding d by (simp add: fs_reopened_def fs_fresh_def BlockAllocator_from_bytes_def)
  finally show ?thesis .
qed

subsection \<open>Creating a file in the root directory\<close>

lemma dir_inode_fields [simp]:
  "file_type (dir_inode now b) = DIRECTORY" "block_count (dir_inode now b) = 1"
  "direct_blocks (dir_inode now b) ! 0 = b" "size (dir_inode now b) = 0"
  by (simp_all add: dir_inode_def Inode_def DIRECT_BLOCKS_def)

lemma lookup_single:
  assumes "map_of (inode_table fs) d = Some dino" and "file_type dino = DIRECTORY"
    and "block_count dino = 1" and "direct_blocks dino ! 0 = Some b" and "b \<noteq> 0"
    and "read_block (device fs) (Some b) = Inr bd" and "scan_dir bd 0 = (es, r)"
  shows "lookup_in_directory fs (Some d) nm =
    (case find (\<lambda>entry. Some (name entry) = nm) es of
       Some entry \<Rightarrow> Inr (Some (inode_num entry))
     | None \<Rightarrow> (case r of Inl e \<Rightarrow> Inl e | Inr off \<Rightarrow> Inr None))"
  using assms
  by (simp add: lookup_in_directory_def table_get_def DIRECT_BLOCKS_def
      split: option.splits sum.splits)

lemma list_single:
  assumes "find_inode fs (Some path) = Inr (Some d)"
    and "map_of (inode_table fs) d = Some dino" and "file_type dino = DIRECTORY"
    and "block_count dino = 1" and "direct_blocks dino ! 0 = Some b" and "b \<noteq> 0"
    and "read_block (device fs) (Some b) = Inr bd" and "scan_dir bd 0 = (es, Inr off)"
  shows "list_directory fs path = Inr (map name es)"
  using assms
  by (simp add: list_directory_def table_get_def DIRECT_BLOCKS_def)

lemma scan_zero_block: "scan_dir (replicate BLOCK_SIZE 0) 0 = ([], Inr 0)"
  by (rule scan_dir_end) (simp_all add: BLOCK_SIZE_def)

lemma scan_block_f: "scan_dir block_f 0 = ([\<lparr>inode_num = 2, name = str ''f''\<rparr>], Inr 9)"
proof -
  have e: "DirEntry_from_bytes (drop 0 block_f) = Inr (\<lparr>inode_num = 2, name = str ''f''\<rparr>, 9)"
    by (simp add: DirEntry_from_bytes_def block_f_def slice_def unpack_I_def str_def)
  have z: "scan_dir block_f (0 + 9) = ([], Inr 9)"
    by (simp add: scan_dir_end block_f_def BLOCK_SIZE_def nth_append)
  show ?thesis
    using scan_dir_entry [OF _ _ _ e] z
    by (simp add: block_f_def BLOCK_SIZE_def)
qed

lemma length_block_f [simp]: "length block_f = BLOCK_SIZE"
  by (simp add: block_f_def BLOCK_SIZE_def)

lemma entry_f: "DirEntry_to_bytes 2 (Some (str ''f'')) = Inr [2, 0, 0, 0, 1, 0, 0, 0, 102]"
  by (simp add: DirEntry_to_bytes_def str_def utf8_encode_cp_def pack_I_def le_bytes_4)

lemma split_path_f: "split_path (str ''/f'') = (Some (str ''/''), Some (str ''f''))"
  by (simp add: split_path_def str_def rstrip_def SLASH_def)

lemma find_inode_root:
  "find_inode fs (Some (str ''/'')) = Inr (Some (root_inode (superblock fs)))"
  by (simp add: find_inode_def str_def SLASH_def)

lemma find_inode_f:
  "find_inode fs (Some (str ''/f'')) =
    (case lookup_in_directory fs (Some (root_inode (superblock fs))) (Some (str ''f'')) of
       Inl e \<Rightarrow> Inl e | Inr None \<Rightarrow> Inr None | Inr (Some n) \<Rightarrow> Inr (Some n))"
  by (simp add: find_inode_def str_def SLASH_def strip_def rstrip_def
      split: sum.splits option.splits)


lemma read_fresh_10: "read_block (device fs_fresh) (Some 10) = Inr (replicate BLOCK_SIZE 0)"
  using read_block_full [OF dev_wf_fresh, of 10] by (simp add: BLOCK_SIZE_def)

lemma inode_ok_file0: "inode_ok (Inode 0 REGULAR)"
  by (simp add: inode_ok_Inode)

lemma table_ok_with_file: "table_ok [(1, dir_inode 0 (Some 10)), (2, Inode 0 REGULAR)]"
  by (simp add: table_ok_def record_ok_def inode_ok_dir_inode inode_ok_file0)

lemma add_dir_entry_ok:
  assumes "DirEntry_to_bytes num nm = Inr eb" and "map_of (inode_table fs) d = Some dino"
    and "block_count dino \<noteq> 0" and "direct_blocks dino ! 0 = Some b"
    and "read_block (device fs) (Some b) = Inr bd" and "scan_dir bd 0 = (es, Inr off)"
    and "off + length eb \<le> BLOCK_SIZE"
    and "write_block (device fs) (Some b) (set_slice off (off + length eb) eb bd) = Inr dev'"
  shows "add_dir_entry fs (Some d) nm num = (Inr (), fs\<lparr>device := dev'\<rparr>)"
  using assms by (simp add: add_dir_entry_def)

lemma create_file_ok:
  assumes "split_path path = (pp, nm)" and "find_inode fs pp = Inr p"
    and "lookup_in_directory fs p nm = Inr None"
    and "add_dir_entry (fs\<lparr>next_inode := next_inode fs + 1,
            inode_table := AList.update (next_inode fs) (Inode now REGULAR) (inode_table fs)\<rparr>)
          p nm (next_inode fs) = (Inr (), fs2)"
    and "sync fs2 = (Inr (), fs3)"
  shows "create_file fs now path = (Inr (), fs3)"
  using assms by (simp add: create_file_def)

lemma create_file_f:
  assumes tbl: "inode_table fs = [(1, dir_inode 0 (Some 10))]"
    and sb: "superblock fs = Superblock 256 1000"
    and nx: "next_inode fs = 2"
    and dev: "device fs = device fs_fresh"
    and tb: "total_blocks (allocator fs) = 256"
  shows "create_file fs 0 (str ''/f'') = (Inr (), with_file fs)"
proof -
  have root: "root_inode (superblock fs) = 1" by (simp add: sb Superblock_def)
  have fr: "find_inode fs (Some (str ''/'')) = Inr (Some 1)"
    by (simp add: find_inode_root root)
  have rd: "read_block (device fs) (Some 10) = Inr (replicate BLOCK_SIZE 0)"
    by (simp add: dev read_fresh_10)
  have lk: "lookup_in_directory fs (Some 1) (Some (str ''f'')) = Inr None"
    using lookup_single [of fs 1 "dir_inode 0 (Some 10)" 10 "replicate BLOCK_SIZE 0" "[]" "Inr 0"]
    by (simp add: tbl rd scan_zero_block)
  let ?fs1 = "fs\<lparr>next_inode := next_inode fs + 1,
      inode_table := AList.update (next_inode fs) (Inode 0 REGULAR) (inode_table fs)\<rparr>"
  let ?eb = "[2, 0, 0, 0, 1, 0, 0, 0, 102] :: bytes"
  let ?d' = "(device fs)\<lparr>dev_blocks := (dev_blocks (device fs))(10 := block_f)\<rparr>"
  have ss: "set_slice 0 (0 + length ?eb) ?eb (replicate BLOCK_SIZE 0) = block_f"
    by (simp add: set_slice_def block_f_def BLOCK_SIZE_def)
  have wb: "write_block (device ?fs1) (Some 10)
       (set_slice 0 (0 + length ?eb) ?eb (replicate BLOCK_SIZE 0)) = Inr ?d'"
    unfolding ss
    using write_block_full [OF dev_wf_fresh, of block_f 10]
    by (simp add: dev BLOCK_SIZE_def max_def)
  have add: "add_dir_entry ?fs1 (Some 1) (Some (str ''f'')) (next_inode fs)
      = (Inr (), ?fs1\<lparr>device := ?d'\<rparr>)"
  proof (rule add_dir_entry_ok [where dino = "dir_inode 0 (Some 10)" and b = 10
        and bd = "replicate BLOCK_SIZE 0" and es = "[]" and off = 0 and eb = ?eb])
    show "DirEntry_to_bytes (next_inode fs) (Some (str ''f'')) = Inr ?eb"
      by (simp add: nx entry_f)
    show "map_of (inode_table ?fs1) 1 = Some (dir_inode 0 (Some 10))"
      by (simp add: tbl nx)
    show "read_block (device ?fs1) (Some 10) = Inr (replicate BLOCK_SIZE 0)"
      by (simp add: rd)
    show "0 + length ?eb \<le> BLOCK_SIZE" by (simp add: BLOCK_SIZE_def)
    show "write_block (device ?fs1) (Some 10)
       (set_slice 0 (0 + length ?eb) ?eb (replicate BLOCK_SIZE 0)) = Inr ?d'"
      by (rule wb)
    show "scan_dir (replicate BLOCK_SIZE 0) 0 = ([], Inr 0)" by (rule scan_zero_block)
  qed simp_all
  have eq: "?fs1\<lparr>device := ?d'\<rparr> = fs\<lparr>next_inode := 3,
     inode_table := [(1, dir_inode 0 (Some 10)), (2, Inode 0 REGULAR)],
     device := (device fs)\<lparr>dev_blocks := (dev_blocks (device fs))(10 := block_f)\<rparr>\<rparr>"
    by (simp add: nx tbl)
  have sy: "sync (?fs1\<lparr>device := ?d'\<rparr>) = (Inr (), with_file fs)"
    unfolding eq with_file_def
    using dev_wf_fresh
    by (intro sync_ok)
       (simp_all add: dev dev_wf_def sb sb_ok_Superblock tb
          table_ok_with_file [unfolded One_nat_def])
  show ?thesis
    by (rule create_file_ok [OF split_path_f fr lk add sy])
qed

subsection \<open>States after sync\<close>

lemma length_table_bytes: "table_ok tbl \<Longrightarrow> length (table_bytes tbl) = BLOCK_SIZE"
  by (simp add: table_bytes_def table_ok_def length_concat_records BLOCK_SIZE_def)

lemma synced_fields [simp]:
  "inode_table (synced fs) = inode_table fs"
  "next_inode (synced fs) = next_inode fs"
  "allocator (synced fs) = allocator fs"
  "root_inode (superblock (synced fs)) = root_inode (superblock fs)"
  "sb_total_blocks (superblock (synced fs)) = sb_total_blocks (superblock fs)"
  "dev_size (device (synced fs)) = max (dev_size (device fs)) (3 * BLOCK_SIZE)"
  "dev_block_count (device (synced fs)) = dev_block_count (device fs)"
  by (simp_all add: synced_def Let_def)

lemma synced_blocks:
  "dev_blocks (device (synced fs)) n =
    (if n = 2 then table_bytes (inode_table fs)
     else if n = 1 then bitmap_block (allocator fs)
     else if n = 0 then
       sb_bytes ((superblock fs)\<lparr>sb_free_blocks := int (free_blocks (allocator fs))\<rparr>)
     else dev_blocks (device fs) n)"
  by (simp add: synced_def Let_def)

lemma dev_wf_synced:
  "dev_wf (device fs) \<Longrightarrow> table_ok (inode_table fs) \<Longrightarrow> dev_wf (device (synced fs))"
  by (simp add: dev_wf_def synced_blocks length_table_bytes) (simp add: BLOCK_SIZE_def)

lemma with_file_fields [simp]:
  "inode_table (with_file fs) = [(1, dir_inode 0 (Some 10)), (2, Inode 0 REGULAR)]"
  "next_inode (with_file fs) = 3"
  "allocator (with_file fs) = allocator fs"
  "root_inode (superblock (with_file fs)) = root_inode (superblock fs)"
  "dev_size (device (with_file fs)) = max (dev_size (device fs)) (3 * BLOCK_SIZE)"
  "dev_blocks (device (with_file fs)) 10 = block_f"
  by (simp_all add: with_file_def synced_blocks)

lemma dev_wf_with_file: "dev_wf (device fs) \<Longrightarrow> dev_wf (device (with_file fs))"
  unfolding with_file_def
  by (rule dev_wf_synced) (simp_all add: dev_wf_def table_ok_with_file [unfolded One_nat_def])

lemma reopened_fields [simp]:
  "inode_table fs_reopened = [(1, dir_inode 0 (Some 10))]"
  "superblock fs_reopened = Superblock 256 1000"
  "next_inode fs_reopened = 2"
  "device fs_reopened = device fs_fresh"
  "allocator fs_reopened = \<lparr>total_blocks = 256, bitmap = bitmap_block (BlockAllocator 256)\<rparr>"
  by (simp_all add: fs_reopened_def)

lemma bitmap_block_eq:
  "length (bitmap a) \<le> BLOCK_SIZE \<Longrightarrow>
   bitmap_block a = bitmap a @ replicate (BLOCK_SIZE - length (bitmap a)) 0"
  by (simp add: bitmap_block_def Let_def set_slice_def slice_def allocator_to_bytes_def min_def)

lemma is_allocated_bitmap_block:
  assumes "length (bitmap a) \<le> BLOCK_SIZE"
  shows "is_allocated \<lparr>total_blocks = t, bitmap = bitmap_block a\<rparr> j = is_allocated a j"
proof (cases "j div 8 < length (bitmap a)")
  case True
  then show ?thesis
    using assms by (simp add: is_allocated_bit bitmap_block_eq nth_append)
next
  case False
  then show ?thesis
    using assms by (simp add: is_allocated_bit bitmap_block_eq nth_append)
qed

lemma allocate_reopened:
  "allocate_block (allocator fs_reopened) = (set_allocated (allocator fs_reopened) 10 True, Some 10)"
proof (rule allocate_block_least)
  have b: "is_allocated \<lparr>total_blocks = 256, bitmap = bitmap_block (BlockAllocator 256)\<rparr> j
      = (j < 10)" for j
    using is_allocated_bitmap_block [of "BlockAllocator 256" 256 j]
    by (simp add: is_allocated_BlockAllocator BLOCK_SIZE_def)
  show "10 < total_blocks (allocator fs_reopened)" by simp
  show "\<not> is_allocated (allocator fs_reopened) 10" by (simp add: b)
  show "\<forall>j<10. is_allocated (allocator fs_reopened) j" by (simp add: b)
qed

subsection \<open>Write then read after a reopen\<close>

lemma write_file_ok:
  assumes "find_inode fs (Some path) = Inr (Some n)" and "map_of (inode_table fs) n = Some ino"
    and "file_type ino = REGULAR"
    and "free_loop [0..<block_count ino] (allocator fs) ino = (afree, ifree, None)"
    and "alloc_loop data [0..<min ((length data + BLOCK_SIZE - 1) div BLOCK_SIZE) DIRECT_BLOCKS]
           0 afree (device fs) ifree = (aalloc, dalloc, ialloc, None)"
    and "sync (fs\<lparr>allocator := aalloc, device := dalloc,
            inode_table := AList.update n
              (ialloc\<lparr>size := length data,
                    block_count := (length data + BLOCK_SIZE - 1) div BLOCK_SIZE,
                    modified := now\<rparr>) (inode_table fs)\<rparr>) = (r, fsr)"
  shows "write_file fs now path data = (r, fsr)"
  using assms by (simp add: write_file_def)

lemma find_f_with_file:
  assumes "dev_wf (device fs)" and "1048576 \<le> dev_size (device fs)"
    and "root_inode (superblock fs) = 1"
  shows "find_inode (with_file fs) (Some (str ''/f'')) = Inr (Some 2)"
proof -
  have rd: "read_block (device (with_file fs)) (Some 10) = Inr block_f"
    using read_block_full [OF dev_wf_with_file [OF assms(1)], of 10] assms(2)
    by (simp add: BLOCK_SIZE_def)
  have "lookup_in_directory (with_file fs) (Some 1) (Some (str ''f'')) = Inr (Some 2)"
    using lookup_single [of "with_file fs" 1 "dir_inode 0 (Some 10)" 10 block_f
        "[\<lparr>inode_num = 2, name = str ''f''\<rparr>]" "Inr 9" "Some (str ''f'')"]
    by (simp add: rd scan_block_f)
  then show ?thesis
    by (simp add: find_inode_f assms(3))
qed

lemma utf8_decode_zeros: "utf8_decode (replicate k 0) = replicate k 0"
  by (induction k) simp_all

lemma scan_block_hello:
  "scan_dir block_hello 0 = ([\<lparr>inode_num = 1819043176, name = replicate 111 0\<rparr>], Inr 119)"
proof -
  have s: "slice 8 119 block_hello = replicate 111 0"
    by (simp add: slice_def block_hello_def hello_def)
  have e: "DirEntry_from_bytes (drop 0 block_hello)
      = Inr (\<lparr>inode_num = 1819043176, name = replicate 111 0\<rparr>, 119)"
    using s by (simp add: DirEntry_from_bytes_def block_hello_def hello_def slice_def unpack_I_def
        utf8_decode_zeros)
  have z: "scan_dir block_hello (0 + 119) = ([], Inr 119)"
    by (simp add: scan_dir_end block_hello_def hello_def BLOCK_SIZE_def nth_append)
  show ?thesis
    using scan_dir_entry [OF _ _ _ e] z
    by (simp add: block_hello_def hello_def BLOCK_SIZE_def)
qed


lemma length_hello [simp]: "length hello = 5"
  by (simp add: hello_def)

lemma length_block_hello [simp]: "length block_hello = BLOCK_SIZE"
  by (simp add: block_hello_def BLOCK_SIZE_def)

lemma inode_ok_hello: "inode_ok hello_inode"
  by (simp add: hello_inode_def inode_ok_def Inode_def slot_ok_def list_all_length
      nth_list_update DIRECT_BLOCKS_def)

lemma table_ok_clobbered: "table_ok [(1, dir_inode 0 (Some 10)), (2, hello_inode)]"
  by (simp add: table_ok_def record_ok_def inode_ok_dir_inode inode_ok_hello)

lemma dev_wf_reopened_file: "dev_wf (device (with_file fs_reopened))"
  by (rule dev_wf_with_file) (simp add: dev_wf_fresh)

lemma dev_wf_update_blocks:
  "dev_wf d \<Longrightarrow> length data = BLOCK_SIZE \<Longrightarrow>
   dev_wf (d\<lparr>dev_blocks := (dev_blocks d)(n := data)\<rparr>)"
  by (simp add: dev_wf_def)

lemma sb_ok_synced:
  "sb_ok (superblock fs) \<Longrightarrow> total_blocks (allocator fs) < 2 ^ 32
   \<Longrightarrow> sb_ok (superblock (synced fs))"
  using free_blocks_le [of "allocator fs"]
  by (simp add: synced_def Let_def sb_ok_def)

lemma sb_ok_with_file:
  "sb_ok (superblock fs) \<Longrightarrow> total_blocks (allocator fs) < 2 ^ 32
   \<Longrightarrow> sb_ok (superblock (with_file fs))"
  unfolding with_file_def by (rule sb_ok_synced) simp_all

lemma write_hello:
  "write_file (with_file fs_reopened) 0 (str ''/f'') hello = (Inr (), fs_clobbered)"
proof (rule write_file_ok [where n = 2 and ino = "Inode 0 REGULAR"
      and afree = "allocator fs_reopened" and ifree = "Inode 0 REGULAR"
      and aalloc = "set_allocated (allocator fs_reopened) 10 True"
      and dalloc = "(device (with_file fs_reopened))
         \<lparr>dev_blocks := (dev_blocks (device (with_file fs_reopened)))(10 := block_hello)\<rparr>"
      and ialloc = "(Inode 0 REGULAR)
         \<lparr>direct_blocks := (direct_blocks (Inode 0 REGULAR))[0 := Some 10]\<rparr>"])
  let ?fs = "with_file fs_reopened"
  show "find_inode ?fs (Some (str ''/f'')) = Inr (Some 2)"
    by (rule find_f_with_file) (simp_all add: dev_wf_fresh Superblock_def)
  show "map_of (inode_table ?fs) 2 = Some (Inode 0 REGULAR)" by simp
  show "file_type (Inode 0 REGULAR) = REGULAR" by (simp add: Inode_def)
  show "free_loop [0..<block_count (Inode 0 REGULAR)] (allocator ?fs) (Inode 0 REGULAR)
      = (allocator fs_reopened, Inode 0 REGULAR, None)"
    by (simp add: Inode_def)
  have idx: "[0..<min ((length hello + BLOCK_SIZE - 1) div BLOCK_SIZE) DIRECT_BLOCKS] = [0]"
    by (simp add: BLOCK_SIZE_def DIRECT_BLOCKS_def)
  have bd: "set_slice 0 (min (length hello - 0) BLOCK_SIZE)
      (slice 0 (0 + min (length hello - 0) BLOCK_SIZE) hello) (replicate BLOCK_SIZE 0) = block_hello"
    by (simp add: set_slice_def slice_def block_hello_def BLOCK_SIZE_def)
  have wb: "write_block (device ?fs) (Some 10) block_hello
      = Inr ((device ?fs)\<lparr>dev_blocks := (dev_blocks (device ?fs))(10 := block_hello)\<rparr>)"
    using write_block_full [OF dev_wf_reopened_file, of block_hello 10]
    by (simp add: BLOCK_SIZE_def max_def)
  show "alloc_loop hello [0..<min ((length hello + BLOCK_SIZE - 1) div BLOCK_SIZE) DIRECT_BLOCKS]
      0 (allocator fs_reopened) (device ?fs) (Inode 0 REGULAR)
    = (set_allocated (allocator fs_reopened) 10 True,
       (device ?fs)\<lparr>dev_blocks := (dev_blocks (device ?fs))(10 := block_hello)\<rparr>,
       (Inode 0 REGULAR)\<lparr>direct_blocks := (direct_blocks (Inode 0 REGULAR))[0 := Some 10]\<rparr>,
       None)"
    unfolding idx alloc_loop.simps allocate_reopened Let_def
    by (simp only: prod.case bd wb sum.case)
  have eq: "(?fs\<lparr>allocator := set_allocated (allocator fs_reopened) 10 True,
        device := (device ?fs)\<lparr>dev_blocks := (dev_blocks (device ?fs))(10 := block_hello)\<rparr>,
        inode_table := AList.update 2
          ((Inode 0 REGULAR)\<lparr>direct_blocks := (direct_blocks (Inode 0 REGULAR))[0 := Some 10]\<rparr>
             \<lparr>size := length hello,
              block_count := (length hello + BLOCK_SIZE - 1) div BLOCK_SIZE, modified := 0\<rparr>)
          (inode_table ?fs)\<rparr>)
     = (?fs\<lparr>allocator := set_allocated (allocator fs_reopened) 10 True,
        device := (device ?fs)\<lparr>dev_blocks := (dev_blocks (device ?fs))(10 := block_hello)\<rparr>,
        inode_table := [(1, dir_inode 0 (Some 10)), (2, hello_inode)]\<rparr>)"
    by (simp add: hello_inode_def BLOCK_SIZE_def)
  show "sync (?fs\<lparr>allocator := set_allocated (allocator fs_reopened) 10 True,
        device := (device ?fs)\<lparr>dev_blocks := (dev_blocks (device ?fs))(10 := block_hello)\<rparr>,
        inode_table := AList.update 2
          ((Inode 0 REGULAR)\<lparr>direct_blocks := (direct_blocks (Inode 0 REGULAR))[0 := Some 10]\<rparr>
             \<lparr>size := length hello,
              block_count := (length hello + BLOCK_SIZE - 1) div BLOCK_SIZE, modified := 0\<rparr>)
          (inode_table ?fs)\<rparr>) = (Inr (), fs_clobbered)"
    unfolding eq fs_clobbered_def
  proof (rule sync_ok)
    let ?X = "?fs\<lparr>allocator := set_allocated (allocator fs_reopened) 10 True,
        device := (device ?fs)\<lparr>dev_blocks := (dev_blocks (device ?fs))(10 := block_hello)\<rparr>,
        inode_table := [(1, dir_inode 0 (Some 10)), (2, hello_inode)]\<rparr>"
    show "dev_wf (device ?X)"
      using dev_wf_update_blocks [OF dev_wf_reopened_file, of block_hello 10] by simp
    show "sb_ok (superblock ?X)"
      using sb_ok_with_file [of fs_reopened] by (simp add: sb_ok_Superblock)
    show "total_blocks (allocator ?X) < 2 ^ 32" by simp
    show "table_ok (inode_table ?X)" using table_ok_clobbered by simp
    show "inode_table ?X \<noteq> []" by simp
  qed
qed


lemma clobbered_fields [simp]:
  "inode_table fs_clobbered = [(1, dir_inode 0 (Some 10)), (2, hello_inode)]"
  "root_inode (superblock fs_clobbered) = 1"
  "dev_blocks (device fs_clobbered) 10 = block_hello"
  "dev_size (device fs_clobbered) = 1048576"
  by (simp_all add: fs_clobbered_def synced_blocks Superblock_def BLOCK_SIZE_def)

lemma dev_wf_clobbered: "dev_wf (device fs_clobbered)"
  unfolding fs_clobbered_def
proof (rule dev_wf_synced)
  let ?fs = "with_file fs_reopened"
  let ?X = "?fs\<lparr>allocator := set_allocated (allocator fs_reopened) 10 True,
        device := (device ?fs)\<lparr>dev_blocks := (dev_blocks (device ?fs))(10 := block_hello)\<rparr>,
        inode_table := [(1, dir_inode 0 (Some 10)), (2, hello_inode)]\<rparr>"
  show "dev_wf (device ?X)"
    using dev_wf_update_blocks [OF dev_wf_reopened_file, of block_hello 10] by simp
  show "table_ok (inode_table ?X)" using table_ok_clobbered by simp
qed

lemma find_f_clobbered: "find_inode fs_clobbered (Some (str ''/f'')) = Inr None"
proof -
  have rd: "read_block (device fs_clobbered) (Some 10) = Inr block_hello"
    using read_block_full [OF dev_wf_clobbered, of 10] by (simp add: BLOCK_SIZE_def)
  have ne: "replicate 111 (0::nat) \<noteq> str ''f''"
  proof
    assume "replicate 111 (0::nat) = str ''f''"
    then have "length (replicate 111 (0::nat)) = length (str ''f'')" by (rule arg_cong)
    then show False by (simp add: str_def)
  qed
  have "lookup_in_directory fs_clobbered (Some 1) (Some (str ''f'')) = Inr None"
    using lookup_single [of fs_clobbered 1 "dir_inode 0 (Some 10)" 10 block_hello
        "[\<lparr>inode_num = 1819043176, name = replicate 111 0\<rparr>]" "Inr 119" "Some (str ''f'')"]
    by (simp add: rd scan_block_hello ne)
  then show ?thesis by (simp add: find_inode_f)
qed

text \<open>
  C1. The image is created, closed and opened again, as the application does between
  its create and mount requests. \<open>create\<close> wrote the bitmap to disk before it allocated the
  root directory's block 10, so after the reopen block 10 counts as free. \<open>/f\<close> is created
  and resolves to the REGULAR inode 2; writing the five bytes \<open>hello\<close> to it allocates block
  10 and overwrites the root directory with the data, and the read that follows no
  longer finds \<open>/f\<close> and returns the empty bytes.
\<close>

theorem write_then_read_after_reopen:
  "FileSystem_create 1 0 = Inr fs_fresh \<and>
   reopen fs_fresh = Inr fs_reopened \<and>
   create_file fs_reopened 0 (str ''/f'') = (Inr (), with_file fs_reopened) \<and>
   find_inode (with_file fs_reopened) (Some (str ''/f'')) = Inr (Some 2) \<and>
   map_option file_type (map_of (inode_table (with_file fs_reopened)) 2) = Some REGULAR \<and>
   free_blocks (allocator (with_file fs_reopened)) = 246 \<and>
   write_file (with_file fs_reopened) 0 (str ''/f'') hello = (Inr (), fs_clobbered) \<and>
   read_file fs_clobbered (str ''/f'') = Inr [] \<and> hello \<noteq> []"
proof -
  have cf: "create_file fs_reopened 0 (str ''/f'') = (Inr (), with_file fs_reopened)"
    by (rule create_file_f) simp_all
  have fi: "find_inode (with_file fs_reopened) (Some (str ''/f'')) = Inr (Some 2)"
    by (rule find_f_with_file) (simp_all add: dev_wf_fresh Superblock_def)
  have ft: "map_option file_type (map_of (inode_table (with_file fs_reopened)) 2) = Some REGULAR"
    by (simp add: Inode_def)
  have al: "is_allocated \<lparr>total_blocks = 256, bitmap = bitmap_block (BlockAllocator 256)\<rparr> j
      = (j < 10)" for j
    using is_allocated_bitmap_block [of "BlockAllocator 256" 256 j]
    by (simp add: is_allocated_BlockAllocator BLOCK_SIZE_def)
  have "length (filter (\<lambda>i. \<not> i < m) [0..<n]) = n - m" for m n :: nat
    by (induction n) (auto simp: Suc_diff_le)
  then have fb: "free_blocks (allocator (with_file fs_reopened)) = 246"
    by (simp add: free_blocks_def al)
  have rf: "read_file fs_clobbered (str ''/f'') = Inr []"
    by (simp add: read_file_def find_f_clobbered table_get_def)
  show ?thesis
    using create_fresh reopen_fresh cf fi ft fb write_hello rf by (simp add: hello_def)
qed

end
